theory Spec2Isabelle
  imports Complex_Main "HOL-Library.AList" "HOL-Library.Char_ord" "HOL-Library.List_Lexorder"
    "HOL-Library.Product_Lexorder"
begin

section \<open>Values held by a Row\<close>

text \<open>
  A \<^verbatim>\<open>Row\<close> is a Go \<^verbatim>\<open>map[string]any\<close>. The dynamic types that the type switches of the
  diff package tell apart are \<^verbatim>\<open>nil\<close>, \<^verbatim>\<open>bool\<close>, \<^verbatim>\<open>float64\<close> (every JSON number),
  \<^verbatim>\<open>int\<close>, \<^verbatim>\<open>int64\<close>, \<^verbatim>\<open>string\<close>, \<^verbatim>\<open>[]any\<close> and \<^verbatim>\<open>map[string]any\<close>.

  A \<^verbatim>\<open>float64\<close> is represented by its exact value (every finite float64 is a rational;
  encoding/json never produces NaN or an infinity). \<^verbatim>\<open>int\<close> and \<^verbatim>\<open>int64\<close> carry a value of
  the 64-bit range.

  A Go map is an association list with pairwise distinct keys; the order of the list is the
  order in which one \<^verbatim>\<open>range\<close> loop happens to visit the map (Go leaves it unspecified),
  indexing is \<open>map_of\<close>. A nil map and an empty map are both \<open>[]\<close>: the package only
  indexes, measures and ranges over maps it reads, and those agree on the two.
\<close>

datatype jv =
    JNil
  | JBool bool
  | JFloat real
  | JInt int
  | JInt64 int
  | JStr string
  | JArr "jv list"
  | JObj "(string \<times> jv) list"

type_synonym Row = "(string \<times> jv) list"

text \<open>\<^verbatim>\<open>row[key]\<close>: the value stored under the key, \<^verbatim>\<open>nil\<close> when there is none.\<close>

definition idx :: "Row \<Rightarrow> string \<Rightarrow> jv" where
  "idx row key = (case map_of row key of None \<Rightarrow> JNil | Some v \<Rightarrow> v)"

text \<open>The same on a Row that may be nil (\<open>None\<close>): indexing a nil map yields \<^verbatim>\<open>nil\<close>.\<close>

definition idxN :: "Row option \<Rightarrow> string \<Rightarrow> jv" where
  "idxN row key = (case row of None \<Rightarrow> JNil | Some r \<Rightarrow> idx r key)"

subsection \<open>Machine integers\<close>

text \<open>Go's \<^verbatim>\<open>int\<close> is 64 bits wide on the supported platforms; subtraction wraps.\<close>

definition wrap64 :: "int \<Rightarrow> int" where
  "wrap64 x = (x + 9223372036854775808) mod 18446744073709551616 - 9223372036854775808"

definition inInt64 :: "int \<Rightarrow> bool" where
  "inInt64 x \<longleftrightarrow> - 9223372036854775808 \<le> x \<and> x < 9223372036854775808"

text \<open>
  \<^verbatim>\<open>int(x)\<close> of a float64 truncates towards zero. Outside the 64-bit range Go leaves the
  result to the implementation; amd64 yields the smallest int64, which is what is written here.
\<close>

definition truncReal :: "real \<Rightarrow> int" where
  "truncReal x = (if 0 \<le> x then \<lfloor>x\<rfloor> else \<lceil>x\<rceil>)"

definition floatToInt :: "real \<Rightarrow> int" where
  "floatToInt x = (let t = truncReal x in if inInt64 t then t else - 9223372036854775808)"

subsection \<open>Floating point\<close>

text \<open>
  The result of a \<^verbatim>\<open>float64\<close> operation is the exact result rounded to the nearest
  float64, a tie going to the even significand: 53 significant bits, with the binary exponent
  not below \<open>-1022\<close>, so that the spacing of the values never falls below \<open>pow2 (-1074)\<close>.
  \<open>binExponent a\<close> is the \<open>e\<close> with \<open>pow2 e \<le> a < pow2 (e + 1)\<close> for a positive \<open>a\<close>,
  found by halving or doubling. A result beyond the largest finite float64, which Go turns
  into an infinity, is outside this representation.
\<close>

definition roundHalfEven :: "real \<Rightarrow> int" where
  "roundHalfEven y =
     (let n = \<lfloor>y\<rfloor>; f = y - of_int n
      in if f > 1 / 2 \<or> (f = 1 / 2 \<and> odd n) then n + 1 else n)"

function halvings :: "real \<Rightarrow> nat" where
  "halvings a = (if a < 2 then 0 else Suc (halvings (a / 2)))"
  by pat_completeness auto
termination
proof (relation "measure (\<lambda>a. nat \<lfloor>a\<rfloor>)")
  show "wf (measure (\<lambda>a::real. nat \<lfloor>a\<rfloor>))" by simp
next
  fix a :: real
  assume "\<not> a < 2"
  then have "\<lfloor>a / 2\<rfloor> < \<lfloor>a\<rfloor>" "0 < \<lfloor>a\<rfloor>" by linarith+
  then show "(a / 2, a) \<in> measure (\<lambda>a. nat \<lfloor>a\<rfloor>)" by simp
qed

function doublings :: "real \<Rightarrow> nat" where
  "doublings a = (if a \<le> 0 \<or> 1 \<le> a then 0 else Suc (doublings (a * 2)))"
  by pat_completeness auto
termination
proof (relation "measure (\<lambda>a. nat \<lfloor>1 / a\<rfloor>)")
  show "wf (measure (\<lambda>a::real. nat \<lfloor>1 / a\<rfloor>))" by simp
next
  fix a :: real
  assume "\<not> (a \<le> 0 \<or> 1 \<le> a)"
  then have a: "0 < a" "a < 1" by simp_all
  define b where "b = 1 / a"
  have b: "1 < b" using a by (simp add: b_def)
  have half: "1 / (a * 2) = b / 2" by (simp add: b_def)
  have pos: "0 < \<lfloor>b\<rfloor>" using b by linarith
  have "\<lfloor>b / 2\<rfloor> < \<lfloor>b\<rfloor>"
  proof (cases "b < 2")
    case True
    then have "\<lfloor>b / 2\<rfloor> \<le> 0" by linarith
    with pos show ?thesis by linarith
  next
    case False
    then show ?thesis by linarith
  qed
  with pos have "\<lfloor>b / 2\<rfloor> < \<lfloor>b\<rfloor>" "0 < \<lfloor>b\<rfloor>" by simp_all
  then show "(a * 2, a) \<in> measure (\<lambda>a. nat \<lfloor>1 / a\<rfloor>)"
    unfolding half [symmetric] b_def by simp
qed

declare halvings.simps [simp del] doublings.simps [simp del]

definition pow2 :: "int \<Rightarrow> real" where
  "pow2 e = (if 0 \<le> e then 2 ^ nat e else 1 / 2 ^ nat (- e))"

definition binExponent :: "real \<Rightarrow> int" where
  "binExponent a = (if 1 \<le> a then int (halvings a) else - int (doublings a))"

definition fl64 :: "real \<Rightarrow> real" where
  "fl64 x =
     (if x = 0 then 0
      else
        let e = max (binExponent \<bar>x\<bar>) (- 1022);
            ulp = pow2 (e - 52);
            n = roundHalfEven (\<bar>x\<bar> / ulp)
        in (if x < 0 then - 1 else 1) * of_int n * ulp)"

text \<open>\<^verbatim>\<open>float64(x)\<close> of an \<^verbatim>\<open>int\<close> or \<^verbatim>\<open>int64\<close> rounds in the same way.\<close>

definition intToFloat :: "int \<Rightarrow> real" where
  "intToFloat x = fl64 (real_of_int x)"

subsection \<open>Coercions\<close>

fun toFloat64 :: "jv \<Rightarrow> real" where
  "toFloat64 (JFloat x) = x"
| "toFloat64 (JInt x) = intToFloat x"
| "toFloat64 (JInt64 x) = intToFloat x"
| "toFloat64 _ = 0"

fun toInt :: "jv \<Rightarrow> int" where
  "toInt (JFloat x) = floatToInt x"
| "toInt (JInt x) = x"
| "toInt (JInt64 x) = x"
| "toInt _ = 0"

fun toBool :: "jv \<Rightarrow> bool" where
  "toBool (JBool x) = x"
| "toBool (JFloat x) = (x \<noteq> 0)"
| "toBool (JInt x) = (x \<noteq> 0)"
| "toBool _ = False"

text \<open>\<^verbatim>\<open>m, _ := row[key].(map[string]any)\<close>: the zero value (a nil map) when the assertion fails.\<close>

definition getMap :: "Row option \<Rightarrow> string \<Rightarrow> (string \<times> jv) list" where
  "getMap row key = (case idxN row key of JObj m \<Rightarrow> m | _ \<Rightarrow> [])"

definition getSlice :: "Row option \<Rightarrow> string \<Rightarrow> jv list" where
  "getSlice row key = (case idxN row key of JArr s \<Rightarrow> s | _ \<Rightarrow> [])"

section \<open>Library functions the package calls\<close>

definition HasPrefix :: "string \<Rightarrow> string \<Rightarrow> bool" where
  "HasPrefix s p \<longleftrightarrow> take (length p) s = p"

text \<open>
  White space as Go's \<^verbatim>\<open>unicode.IsSpace\<close> and the scanner of \<^verbatim>\<open>fmt\<close> have it, on the UTF-8
  bytes of a string: the six ASCII characters, U+0085 and U+00A0 (two bytes), and U+1680,
  U+2000 to U+200A, U+2028, U+2029, U+202F, U+205F and U+3000 (three bytes).
  \<open>trimBy\<close> removes leading white space rune by rune; the predicates are arguments so that
  the same function serves from the right, on the reversed string.
\<close>

definition isSpace1 :: "char \<Rightarrow> bool" where
  "isSpace1 c \<longleftrightarrow> c = CHR 0x09 \<or> c = CHR 0x0A \<or> c = CHR 0x0B \<or> c = CHR 0x0C \<or> c = CHR 0x0D \<or> c = CHR 0x20"

definition isSpace2 :: "char \<Rightarrow> char \<Rightarrow> bool" where
  "isSpace2 a b \<longleftrightarrow> a = CHR 0xC2 \<and> (b = CHR 0x85 \<or> b = CHR 0xA0)"

definition isSpace3 :: "char \<Rightarrow> char \<Rightarrow> char \<Rightarrow> bool" where
  "isSpace3 a b c \<longleftrightarrow>
     (a = CHR 0xE1 \<and> b = CHR 0x9A \<and> c = CHR 0x80)
     \<or> (a = CHR 0xE2 \<and> b = CHR 0x80
          \<and> ((CHR 0x80 \<le> c \<and> c \<le> CHR 0x8A) \<or> c = CHR 0xA8 \<or> c = CHR 0xA9 \<or> c = CHR 0xAF))
     \<or> (a = CHR 0xE2 \<and> b = CHR 0x81 \<and> c = CHR 0x9F)
     \<or> (a = CHR 0xE3 \<and> b = CHR 0x80 \<and> c = CHR 0x80)"

fun trimBy :: "(char \<Rightarrow> bool) \<Rightarrow> (char \<Rightarrow> char \<Rightarrow> bool) \<Rightarrow> (char \<Rightarrow> char \<Rightarrow> char \<Rightarrow> bool)
    \<Rightarrow> string \<Rightarrow> string" where
  "trimBy s1 s2 s3 (a # b # c # s) =
     (if s1 a then trimBy s1 s2 s3 (b # c # s)
      else if s2 a b then trimBy s1 s2 s3 (c # s)
      else if s3 a b c then trimBy s1 s2 s3 s
      else a # b # c # s)"
| "trimBy s1 s2 s3 [a, b] = (if s1 a then trimBy s1 s2 s3 [b] else if s2 a b then [] else [a, b])"
| "trimBy s1 s2 s3 [a] = (if s1 a then [] else [a])"
| "trimBy s1 s2 s3 [] = []"

definition TrimSpace :: "string \<Rightarrow> string" where
  "TrimSpace s =
     rev (trimBy isSpace1 (\<lambda>a b. isSpace2 b a) (\<lambda>a b c. isSpace3 c b a)
            (rev (trimBy isSpace1 isSpace2 isSpace3 s)))"

text \<open>
  \<^verbatim>\<open>fmt.Sscanf(k, "%d", &c)\<close> with \<^verbatim>\<open>c\<close> an \<^verbatim>\<open>int\<close>: leading white space is skipped, a newline
  there being an error; an optional sign is read, then the longest run of the decimal digits
  \<^verbatim>\<open>0123456789\<close>, which stops at any other character (an underscore included: the key
  \<^verbatim>\<open>1_0\<close> scans as 1). The run must be non-empty and is handed with the sign to
  \<^verbatim>\<open>strconv.ParseInt\<close> in base 10, which rejects a value outside 64 bits. Whatever follows
  the run is left unread and is no error. \<open>None\<close> stands for \<^verbatim>\<open>err != nil\<close>.
\<close>

definition isBlank :: "char \<Rightarrow> bool" where
  "isBlank c \<longleftrightarrow> c = CHR '' '' \<or> c = CHR 0x09 \<or> c = CHR 0x0B \<or> c = CHR 0x0C \<or> c = CHR 0x0D"

definition digitVal :: "char \<Rightarrow> int" where
  "digitVal c = int (of_char c) - 48"

definition isDigit :: "char \<Rightarrow> bool" where
  "isDigit c \<longleftrightarrow> CHR ''0'' \<le> c \<and> c \<le> CHR ''9''"

definition digitsVal :: "string \<Rightarrow> int" where
  "digitsVal ds = foldl (\<lambda>a c. 10 * a + digitVal c) 0 ds"

definition sscanInt :: "string \<Rightarrow> int option" where
  "sscanInt s =
     (let r = trimBy isBlank isSpace2 isSpace3 s
      in if r \<noteq> [] \<and> hd r = CHR 0x0A then None
         else
           let neg = (r \<noteq> [] \<and> hd r = CHR ''-'');
               r1 = (if r \<noteq> [] \<and> (hd r = CHR ''-'' \<or> hd r = CHR ''+'') then tl r else r);
               tok = takeWhile isDigit r1
           in if tok = [] then None
              else
                let v = (if neg then - digitsVal tok else digitsVal tok)
                in if inInt64 v then Some v else None)"

section \<open>Classification tables (classify.go)\<close>

definition probeSeverityPrefix :: "(string \<times> string) list" where
  "probeSeverityPrefix =
     [(''config.'', ''high''),
      (''network.defaults_'', ''high''),
      (''network.socketfilterfw_'', ''high''),
      (''identity.dscl_'', ''medium''),
      (''identity.dseditgroup_'', ''medium''),
      (''network.ifconfig_'', ''medium''),
      (''network.lsof_'', ''medium''),
      (''network.scutil_'', ''medium''),
      (''execution.launchctl_'', ''medium''),
      (''execution.ps_'', ''low''),
      (''persistence.'', ''medium'')]"

definition probeSeverityExact :: "(string \<times> string) list" where
  "probeSeverityExact = [(''network.socketfilterfw_stealth'', ''high'')]"

definition probeExpectedExitCodes :: "(string \<times> int list) list" where
  "probeExpectedExitCodes =
     [(''config.fdesetup_status'', [15, 1]),
      (''config.defaults_firewall_globalstate'', [1]),
      (''config.defaults_screen_lock_delay'', [1]),
      (''network.defaults_firewall_globalstate'', [1]),
      (''identity.dscl_list_users'', [70, 1]),
      (''identity.dseditgroup_checkmember'', [1])]"

definition probeTopic :: "(string \<times> string) list" where
  "probeTopic =
     [(''config.'', ''Security''),
      (''network.'', ''Network''),
      (''identity.'', ''Identity''),
      (''storage.'', ''Storage''),
      (''execution.'', ''Execution''),
      (''persistence.'', ''Persistence'')]"

definition TopicOrder :: "string list" where
  "TopicOrder = [''Security'', ''Network'', ''Identity'', ''Storage'', ''Execution'', ''Persistence'', ''Other'']"

definition SeverityOrder :: "(string \<times> int) list" where
  "SeverityOrder = [(''high'', 0), (''medium'', 1), (''low'', 2)]"

text \<open>
  The loop of \<^verbatim>\<open>ProbeSeverity\<close> over the prefix table: the first entry whose prefix matches
  returns, \<^verbatim>\<open>"low"\<close> after the loop. The tables are arguments of the \<open>In\<close> functions so that
  the order of precedence can be stated for any table; the package's functions are their
  instances at the package's tables.
\<close>

fun prefixScan :: "(string \<times> string) list \<Rightarrow> string \<Rightarrow> string \<Rightarrow> string" where
  "prefixScan [] probe dflt = dflt"
| "prefixScan (p # ps) probe dflt = (if HasPrefix probe (fst p) then snd p else prefixScan ps probe dflt)"

definition ProbeSeverityIn :: "(string \<times> string) list \<Rightarrow> (string \<times> string) list \<Rightarrow> string \<Rightarrow> string" where
  "ProbeSeverityIn exact prefixes probe =
     (case map_of exact probe of
        Some sev \<Rightarrow> sev
      | None \<Rightarrow> prefixScan prefixes probe ''low'')"

definition ProbeSeverity :: "string \<Rightarrow> string" where
  "ProbeSeverity probe = ProbeSeverityIn probeSeverityExact probeSeverityPrefix probe"

text \<open>
  \<^verbatim>\<open>ProbeTopic\<close> ranges over the map \<^verbatim>\<open>probeTopic\<close>; the list above is one order of visit.
\<close>

definition ProbeTopic :: "string \<Rightarrow> string" where
  "ProbeTopic probe = prefixScan probeTopic probe ''Other''"

text \<open>
  \<^verbatim>\<open>ExpectedState\<close>: the set \<^verbatim>\<open>codes\<close> is filled from the keys of \<^verbatim>\<open>exitCodes\<close> that scan as
  an integer, then one pass over it sets the two flags.
\<close>

definition collectCodes :: "(string \<times> jv) list \<Rightarrow> int list" where
  "collectCodes exitCodes =
     foldl (\<lambda>codes kv. case sscanInt (fst kv) of Some c \<Rightarrow> List.insert c codes | None \<Rightarrow> codes)
       [] exitCodes"

definition overlapFlags :: "int list \<Rightarrow> int list \<Rightarrow> bool \<times> bool" where
  "overlapFlags expected codes =
     foldl (\<lambda>(allInExpected, hasOverlap) c.
              if c \<in> set expected then (allInExpected, True) else (False, hasOverlap))
       (True, False) codes"

definition ExpectedState :: "string \<Rightarrow> (string \<times> jv) list \<Rightarrow> string" where
  "ExpectedState probe exitCodes =
     (let expected = (case map_of probeExpectedExitCodes probe of None \<Rightarrow> [] | Some e \<Rightarrow> e)
      in if length expected = 0 then ''unexpected''
         else
           let codes = collectCodes exitCodes
           in if length codes = 0 then ''unexpected''
              else
                let (allInExpected, hasOverlap) = overlapFlags expected codes
                in if allInExpected then ''expected''
                   else if hasOverlap then ''mixed''
                   else ''unexpected'')"

definition ExpectedSuffix :: "string \<Rightarrow> (string \<times> jv) list \<Rightarrow> string" where
  "ExpectedSuffix probe exitCodes =
     (let state = ExpectedState probe exitCodes
      in if state = ''expected'' then '' (expected)''
         else if state = ''mixed'' then '' (mixed)''
         else '''')"

subsection \<open>The classification rule in the words of the specification\<close>

text \<open>
  \<open>E\<close> is the expected-code set of the probe (empty when the probe is not in the table),
  \<open>C\<close> a set of observed codes; \<open>stateOfSets E C\<close> is the rule of section 4.3.
\<close>

definition expectedSet :: "string \<Rightarrow> int set" where
  "expectedSet probe = (case map_of probeExpectedExitCodes probe of None \<Rightarrow> {} | Some e \<Rightarrow> set e)"

definition stateOfSets :: "int set \<Rightarrow> int set \<Rightarrow> string" where
  "stateOfSets E C =
     (if C = {} then ''unexpected''
      else if C \<subseteq> E then ''expected''
      else if C \<inter> E \<noteq> {} then ''mixed''
      else ''unexpected'')"

text \<open>The codes with a non-zero occurrence count, and the codes of all keys.\<close>

definition nonzeroCodes :: "(string \<times> jv) list \<Rightarrow> int set" where
  "nonzeroCodes exitCodes =
     set (List.map_filter (\<lambda>kv. if toInt (snd kv) \<noteq> 0 then sscanInt (fst kv) else None) exitCodes)"

definition keyCodes :: "(string \<times> jv) list \<Rightarrow> int set" where
  "keyCodes exitCodes = set (List.map_filter (\<lambda>kv. sscanInt (fst kv)) exitCodes)"

section \<open>Text output (fmt, strconv, time)\<close>

text \<open>
  Strings are byte sequences, as in Go. The two characters of the report beyond ASCII are
  written in UTF-8.
\<close>

definition arrow :: string where
  "arrow = [CHR 0xE2, CHR 0x86, CHR 0x92]"

definition times :: string where
  "times = [CHR 0xC3, CHR 0x97]"

text \<open>
  Standard output is the text written so far; a print appends to it.
\<close>

type_synonym stdout = string

definition Print :: "string \<Rightarrow> stdout \<Rightarrow> stdout" where
  "Print s out = out @ s"

definition Println :: "string \<Rightarrow> stdout \<Rightarrow> stdout" where
  "Println s out = out @ s @ [CHR 0x0A]"

text \<open>\<^verbatim>\<open>%d\<close> and \<^verbatim>\<open>strconv.Itoa\<close>.\<close>

definition digitChar :: "nat \<Rightarrow> char" where
  "digitChar n = ''0123456789'' ! n"

function showNat :: "nat \<Rightarrow> string" where
  "showNat n = (if n < 10 then [digitChar n] else showNat (n div 10) @ [digitChar (n mod 10)])"
  by pat_completeness auto
termination
  by (relation "measure id") auto

declare showNat.simps [simp del]

definition showInt :: "int \<Rightarrow> string" where
  "showInt x = (if x < 0 then CHR ''-'' # showNat (nat (- x)) else showNat (nat x))"

definition zpad :: "nat \<Rightarrow> string \<Rightarrow> string" where
  "zpad w s = replicate (w - length s) (CHR ''0'') @ s"

text \<open>
  \<^verbatim>\<open>%.Nf\<close>: the exact value rounded to \<open>N\<close> decimals, a tie going to the even digit, with
  a minus sign when the value is negative; \<^verbatim>\<open>%+.Nf\<close> writes a plus sign otherwise.
\<close>

definition fmtFixed :: "nat \<Rightarrow> real \<Rightarrow> string" where
  "fmtFixed p x =
     (let n = nat (roundHalfEven (\<bar>x\<bar> * 10 ^ p))
      in (if x < 0 then ''-'' else '''') @ showNat (n div 10 ^ p)
         @ (if p = 0 then '''' else ''.'' @ zpad p (showNat (n mod 10 ^ p))))"

definition fmtFixedPlus :: "nat \<Rightarrow> real \<Rightarrow> string" where
  "fmtFixedPlus p x = (if x < 0 then fmtFixed p x else ''+'' @ fmtFixed p x)"

definition Join :: "string list \<Rightarrow> string \<Rightarrow> string" where
  "Join parts sep = (case parts of [] \<Rightarrow> '''' | p # ps \<Rightarrow> p @ concat (map (\<lambda>q. sep @ q) ps))"

definition TrimSuffix :: "string \<Rightarrow> string \<Rightarrow> string" where
  "TrimSuffix s suffix =
     (if length suffix \<le> length s \<and> drop (length s - length suffix) s = suffix
      then take (length s - length suffix) s else s)"

text \<open>
  \<^verbatim>\<open>time.UnixMilli(ms).UTC().Format("2006-01-02 15:04:05")\<close>: the proleptic Gregorian date
  of the day that holds the instant, with the year written in at least four digits.
\<close>

definition civil :: "int \<Rightarrow> int \<times> int \<times> int" where
  "civil days =
     (let z = days + 719468;
          era = z div 146097;
          doe = z - era * 146097;
          yoe = (doe - doe div 1460 + doe div 36524 - doe div 146096) div 365;
          doy = doe - (365 * yoe + yoe div 4 - yoe div 100);
          mp = (5 * doy + 2) div 153;
          d = doy - (153 * mp + 2) div 5 + 1;
          m = (if mp < 10 then mp + 3 else mp - 9);
          y = yoe + era * 400 + (if m \<le> 2 then 1 else 0)
      in (y, m, d))"

definition pad2 :: "int \<Rightarrow> string" where
  "pad2 x = zpad 2 (showNat (nat x))"

definition fmtYear :: "int \<Rightarrow> string" where
  "fmtYear y = (if y < 0 then CHR ''-'' # zpad 4 (showNat (nat (- y))) else zpad 4 (showNat (nat y)))"

definition fmtUnixMilli :: "int \<Rightarrow> string" where
  "fmtUnixMilli ms =
     (let sec = ms div 1000;
          days = sec div 86400;
          sod = sec mod 86400;
          (y, m, d) = civil days
      in fmtYear y @ ''-'' @ pad2 m @ ''-'' @ pad2 d @ '' ''
         @ pad2 (sod div 3600) @ '':'' @ pad2 (sod mod 3600 div 60) @ '':'' @ pad2 (sod mod 60))"

section \<open>The diff (diff.go)\<close>

text \<open>
  The division by 1024 in \<^verbatim>\<open>fmtBytes\<close> is exact in float64 (a power of two), and the
  test \<^verbatim>\<open>durSec >= 1\<close> on \<^verbatim>\<open>durMs / 1000\<close> has the same outcome rounded or not (for a float64
  \<open>d\<close> the rounded quotient is at least 1 exactly when \<open>d \<ge> 1000\<close>), so both are
  written on the exact values.
\<close>

definition spanSingleShot :: string where
  "spanSingleShot = ''single-shot''"

definition spanTightBurst :: string where
  "spanTightBurst = ''tight burst''"

fun fmtBytesLoop :: "string list \<Rightarrow> real \<Rightarrow> string" where
  "fmtBytesLoop [] v = fmtFixed 1 v @ ''P''"
| "fmtBytesLoop (u # us) v =
     (if v < 1024
      then (if u = ''B'' then showInt (floatToInt v) @ u else fmtFixed 1 v @ u)
      else fmtBytesLoop us (v / 1024))"

fun fmtBytes :: "jv \<Rightarrow> string" where
  "fmtBytes (JFloat x) = fmtBytesLoop [''B'', ''K'', ''M'', ''G'', ''T''] \<bar>x\<bar>"
| "fmtBytes (JInt x) = fmtBytesLoop [''B'', ''K'', ''M'', ''G'', ''T''] \<bar>intToFloat x\<bar>"
| "fmtBytes (JInt64 x) = fmtBytesLoop [''B'', ''K'', ''M'', ''G'', ''T''] \<bar>intToFloat x\<bar>"
| "fmtBytes _ = ''N/A''"

text \<open>
  \<^verbatim>\<open>fmtTsMs\<close> hands a value that is neither nil nor a number to \<^verbatim>\<open>fmt.Sprint\<close>; that
  library function is the argument \<open>sprint\<close>.
\<close>

definition fmtMs :: "real \<Rightarrow> string" where
  "fmtMs ms = (if ms = 0 then ''N/A'' else fmtUnixMilli (floatToInt ms))"

fun fmtTsMs :: "(jv \<Rightarrow> string) \<Rightarrow> jv \<Rightarrow> string" where
  "fmtTsMs sprint JNil = ''N/A''"
| "fmtTsMs sprint (JFloat x) = fmtMs x"
| "fmtTsMs sprint (JInt x) = fmtMs (intToFloat x)"
| "fmtTsMs sprint (JInt64 x) = fmtMs (intToFloat x)"
| "fmtTsMs sprint v = sprint v"

definition SpanLabel :: "int \<Rightarrow> jv \<Rightarrow> string" where
  "SpanLabel count durMs =
     (if count = 1 then spanSingleShot
      else if toFloat64 durMs = 0 then spanTightBurst
      else ''span'')"

definition SpanFormat :: "int \<Rightarrow> jv \<Rightarrow> jv \<Rightarrow> jv \<Rightarrow> jv \<Rightarrow> (jv \<Rightarrow> string) \<Rightarrow> string" where
  "SpanFormat count durMs rate firstTs lastTs fmtTs =
     (let label = SpanLabel count durMs
      in if label = spanSingleShot then spanSingleShot
         else if label = spanTightBurst then spanTightBurst
         else
           let span = fmtTs firstTs @ '' '' @ arrow @ '' '' @ fmtTs lastTs;
               durSec = toFloat64 durMs / 1000;
               r = toFloat64 rate
           in if durSec \<ge> 1 \<and> r > 0 then span @ '' ('' @ fmtFixed 2 r @ ''/s)'' else span)"

text \<open>
  \<^verbatim>\<open>exitCodesDelta\<close>: the set of the keys of both maps, then the difference of the counts
  under each key.
\<close>

definition exitCodesDelta :: "(string \<times> jv) list \<Rightarrow> (string \<times> jv) list \<Rightarrow> (string \<times> int) list" where
  "exitCodesDelta baseEC currEC =
     (let allCodes = foldl (\<lambda>s kv. List.insert (fst kv) s)
                       (foldl (\<lambda>s kv. List.insert (fst kv) s) [] baseEC) currEC
      in foldl (\<lambda>delta c. AList.update c (wrap64 (toInt (idx currEC c) - toInt (idx baseEC c))) delta)
           [] allCodes)"

definition normExitCodes :: "(string \<times> jv) list \<Rightarrow> (int \<times> int) list" where
  "normExitCodes ec =
     foldl (\<lambda>out kv. case sscanInt (fst kv) of
                        Some kk \<Rightarrow> AList.update kk (toInt (snd kv)) out
                      | None \<Rightarrow> out)
       [] ec"

text \<open>\<^verbatim>\<open>b[k]\<close> on a \<^verbatim>\<open>map[int]int\<close>: 0 when the key is absent.\<close>

definition at0 :: "('k \<times> int) list \<Rightarrow> 'k \<Rightarrow> int" where
  "at0 m k = (case map_of m k of None \<Rightarrow> 0 | Some v \<Rightarrow> v)"

definition mapsEqual :: "(int \<times> int) list \<Rightarrow> (int \<times> int) list \<Rightarrow> bool" where
  "mapsEqual a b =
     (if length a \<noteq> length b then False
      else list_all (\<lambda>kv. at0 b (fst kv) = snd kv) a)"

definition probeFailureIsChanged :: "string \<Rightarrow> Row option \<Rightarrow> Row option \<Rightarrow> bool" where
  "probeFailureIsChanged probe baseIt currIt =
     (if baseIt = None \<or> currIt = None then True
      else if toInt (idxN baseIt ''count'') \<noteq> toInt (idxN currIt ''count'') then True
      else
        let baseEC = getMap baseIt ''exit_codes'';
            currEC = getMap currIt ''exit_codes''
        in if \<not> mapsEqual (normExitCodes baseEC) (normExitCodes currEC) then True
           else
             let baseState = ExpectedState probe baseEC;
                 currState = ExpectedState probe currEC
             in baseState \<noteq> currState)"

definition statusOrder :: "(string \<times> int) list" where
  "statusOrder = [(''new'', 0), (''resolved'', 1), (''changed'', 2)]"

definition probeSortKey :: "string \<Rightarrow> string \<Rightarrow> int \<times> int \<times> string" where
  "probeSortKey probe status =
     (let sev = (case map_of SeverityOrder (ProbeSeverity probe) of Some s \<Rightarrow> s | None \<Rightarrow> 2);
          so = (case map_of statusOrder status of Some s \<Rightarrow> s | None \<Rightarrow> 3)
      in (sev, so, probe))"

record probeEntry =
  pe_status :: string
  pe_probe :: string
  pe_baseIt :: "Row option"
  pe_currIt :: "Row option"

text \<open>
  The loop that fills \<^verbatim>\<open>baseProbes\<close> (and \<^verbatim>\<open>currProbes\<close>): an item that is a map with a
  string under \<^verbatim>\<open>"probe"\<close> is stored under that string, a later one replacing an earlier.
\<close>

definition indexItems :: "jv list \<Rightarrow> (string \<times> Row) list" where
  "indexItems items =
     foldl (\<lambda>probes it. case it of
                           JObj row \<Rightarrow> (case idx row ''probe'' of
                                          JStr p \<Rightarrow> AList.update p row probes
                                        | _ \<Rightarrow> probes)
                         | _ \<Rightarrow> probes)
       [] items"

text \<open>
  \<^verbatim>\<open>sort.Slice\<close> with the closure of \<^verbatim>\<open>sortProbes\<close>: its \<^verbatim>\<open>less\<close> compares the triples of
  \<^verbatim>\<open>probeSortKey\<close> component by component, which is the lexicographic order on the triple.
\<close>

definition sortProbes :: "string list \<Rightarrow> string \<Rightarrow> string list" where
  "sortProbes probes status = sort_key (\<lambda>p. probeSortKey p status) probes"

definition buildProbeFailureEntries :: "Row option \<Rightarrow> Row option \<Rightarrow> probeEntry list" where
  "buildProbeFailureEntries basePF currPF =
     (let baseItems = getSlice basePF ''items'';
          currItems = getSlice currPF ''items'';
          baseProbes = indexItems baseItems;
          currProbes = indexItems currItems;
          newProbes = filter (\<lambda>p. map_of baseProbes p = None) (map fst currProbes);
          resolvedProbes = filter (\<lambda>p. map_of currProbes p = None) (map fst baseProbes);
          changedProbes =
            filter (\<lambda>p. map_of currProbes p \<noteq> None
                        \<and> probeFailureIsChanged p (map_of baseProbes p) (map_of currProbes p))
              (map fst baseProbes)
      in map (\<lambda>p. \<lparr>pe_status = ''new'', pe_probe = p, pe_baseIt = None,
                    pe_currIt = map_of currProbes p\<rparr>) (sortProbes newProbes ''new'')
         @ map (\<lambda>p. \<lparr>pe_status = ''resolved'', pe_probe = p, pe_baseIt = map_of baseProbes p,
                      pe_currIt = None\<rparr>) (sortProbes resolvedProbes ''resolved'')
         @ map (\<lambda>p. \<lparr>pe_status = ''changed'', pe_probe = p, pe_baseIt = map_of baseProbes p,
                      pe_currIt = map_of currProbes p\<rparr>) (sortProbes changedProbes ''changed''))"

text \<open>The keys of a map that scan as an integer, in the order of visit.\<close>

definition scanKeys :: "(string \<times> 'v) list \<Rightarrow> int list" where
  "scanKeys m =
     foldl (\<lambda>keys kv. case sscanInt (fst kv) of Some kk \<Rightarrow> keys @ [kk] | None \<Rightarrow> keys) [] m"

definition formatExitCodes :: "(string \<times> jv) list \<Rightarrow> string" where
  "formatExitCodes ec =
     (if length ec = 0 then ''''
      else
        let keys = sort (scanKeys ec);
            parts = map (\<lambda>k. showInt k @ '':'' @ showInt (toInt (idx ec (showInt k)))) keys
        in Join parts '','')"

definition formatExitCodesDelta :: "(string \<times> int) list \<Rightarrow> string" where
  "formatExitCodesDelta delta =
     (let keys = sort (scanKeys delta);
          parts = concat (map (\<lambda>k. let v = at0 delta (showInt k)
                                    in if v \<noteq> 0
                                       then [showInt k @ '':'' @ (if v > 0 then ''+'' else '''') @ showInt v]
                                       else []) keys)
      in Join parts '', '')"

definition formatProbeEntryNew :: "(jv \<Rightarrow> string) \<Rightarrow> string \<Rightarrow> Row option \<Rightarrow> string" where
  "formatProbeEntryNew sprint probe currIt =
     (let c = toInt (idxN currIt ''count'');
          ec = getMap currIt ''exit_codes'';
          spanStr = SpanFormat c (idxN currIt ''duration_ms'') (idxN currIt ''failure_rate'')
                      (idxN currIt ''first_ts_ms'') (idxN currIt ''last_ts_ms'') (fmtTsMs sprint);
          expSuffix = ExpectedSuffix probe ec
      in ''  + '' @ probe @ '' failed '' @ showInt c @ times @ '' ('' @ spanStr
         @ ''), exit_codes: {'' @ formatExitCodes ec @ ''}'' @ expSuffix)"

definition formatProbeEntryResolved :: "string \<Rightarrow> Row option \<Rightarrow> string" where
  "formatProbeEntryResolved probe baseIt =
     (let c = toInt (idxN baseIt ''count'');
          ec = getMap baseIt ''exit_codes'';
          expSuffix = ExpectedSuffix probe ec
      in ''  - '' @ probe @ '' resolved (was '' @ showInt c @ times @ '', exit_codes: {''
         @ formatExitCodes ec @ ''})'' @ expSuffix)"

definition formatProbeEntryChanged :: "string \<Rightarrow> Row option \<Rightarrow> Row option \<Rightarrow> string" where
  "formatProbeEntryChanged probe baseIt currIt =
     (let bc = toInt (idxN baseIt ''count'');
          cc = toInt (idxN currIt ''count'');
          ecDelta = exitCodesDelta (getMap baseIt ''exit_codes'') (getMap currIt ''exit_codes'');
          deltaStr = formatExitCodesDelta ecDelta;
          expSuffix = ExpectedSuffix probe (getMap currIt ''exit_codes'')
      in if deltaStr \<noteq> ''''
         then ''  ~ '' @ probe @ '' '' @ showInt bc @ times @ arrow @ showInt cc @ times
              @ '', exit_codes: '' @ deltaStr @ expSuffix
         else ''  ~ '' @ probe @ '' '' @ showInt bc @ times @ arrow @ showInt cc @ times @ expSuffix)"

subsection \<open>The emitters\<close>

text \<open>
  Each emitter takes the output written so far and returns its flag with the output after
  it. Its loop over the fixed field list collects the deltas, a second loop prints them.
\<close>

definition storageFields :: "string list" where
  "storageFields = [''home_bytes'', ''downloads_bytes'', ''desktop_bytes'', ''trash_bytes'']"

definition storageDeltas :: "Row \<Rightarrow> Row \<Rightarrow> (string \<times> jv \<times> jv \<times> real \<times> real) list" where
  "storageDeltas baseSum currSum =
     foldl (\<lambda>deltas f.
              let b = idx baseSum f; c = idx currSum f
              in if b = JNil \<or> c = JNil then deltas
                 else
                   let bf = toFloat64 b; cf = toFloat64 c; delta = fl64 (cf - bf)
                   in if delta = 0 then deltas
                      else
                        let pct = (if bf \<noteq> 0 then fl64 (fl64 (delta / bf) * 100) else 0)
                        in deltas @ [(TrimSuffix f ''_bytes'', b, c, delta, pct)])
       [] storageFields"

definition storageLine :: "string \<times> jv \<times> jv \<times> real \<times> real \<Rightarrow> string" where
  "storageLine d =
     (case d of (field, b, c, delta, pct) \<Rightarrow>
        let sign = (if delta \<ge> 0 then ''+'' else '''')
        in ''  '' @ field @ '': '' @ fmtBytes b @ '' '' @ arrow @ '' '' @ fmtBytes c
           @ '' ('' @ sign @ fmtBytes (JFloat delta) @ '', '' @ fmtFixedPlus 1 pct @ ''%)''
           @ [CHR 0x0A])"

definition emitStorageDelta :: "Row option \<Rightarrow> Row option \<Rightarrow> stdout \<Rightarrow> bool \<times> stdout" where
  "emitStorageDelta baseSum currSum out =
     (case (baseSum, currSum) of
        (Some bs, Some cs) \<Rightarrow>
          let deltas = storageDeltas bs cs
          in if length deltas = 0 then (False, out)
             else (True, Println '''' (foldl (\<lambda>w d. Print (storageLine d) w)
                                         (Println ''## Storage delta'' out) deltas))
      | _ \<Rightarrow> (False, out))"

definition intDeltas :: "string list \<Rightarrow> Row \<Rightarrow> Row \<Rightarrow> (string \<times> int \<times> int \<times> int) list" where
  "intDeltas fieldNames baseRow currRow =
     foldl (\<lambda>deltas f.
              let b = toInt (idx baseRow f); c = toInt (idx currRow f)
              in if wrap64 (c - b) \<noteq> 0 then deltas @ [(f, b, c, wrap64 (c - b))] else deltas)
       [] fieldNames"

definition intLine :: "string \<times> int \<times> int \<times> int \<Rightarrow> string" where
  "intLine d =
     (case d of (field, b, c, delta) \<Rightarrow>
        let sign = (if delta \<ge> 0 then ''+'' else '''')
        in ''  '' @ field @ '': '' @ showInt b @ '' '' @ arrow @ '' '' @ showInt c
           @ '' ('' @ sign @ showInt delta @ '')'' @ [CHR 0x0A])"

definition countFields :: "string list" where
  "countFields = [''large_files'', ''node_modules'', ''broken_symlinks'', ''git_repos'', ''venv_cache'']"

definition emitCountDelta :: "Row option \<Rightarrow> Row option \<Rightarrow> stdout \<Rightarrow> bool \<times> stdout" where
  "emitCountDelta baseCounts currCounts out =
     (case (baseCounts, currCounts) of
        (Some bc, Some cc) \<Rightarrow>
          let deltas = intDeltas countFields bc cc
          in if length deltas = 0 then (False, out)
             else (True, Println '''' (foldl (\<lambda>w d. Print (intLine d) w)
                                         (Println ''## Count changes'' out) deltas))
      | _ \<Rightarrow> (False, out))"

definition secFields :: "string list" where
  "secFields = [''filevault'', ''sip'', ''gatekeeper'', ''firewall'']"

definition secChanges :: "Row \<Rightarrow> Row \<Rightarrow> (string \<times> bool \<times> bool) list" where
  "secChanges baseSec currSec =
     foldl (\<lambda>changes f.
              let b = idx baseSec f; c = idx currSec f
              in if b = JNil \<or> c = JNil then changes
                 else
                   let bb = toBool b; cc = toBool c
                   in if bb \<noteq> cc then changes @ [(f, bb, cc)] else changes)
       [] secFields"

definition secLine :: "string \<times> bool \<times> bool \<Rightarrow> string" where
  "secLine ch =
     (case ch of (field, b, c) \<Rightarrow>
        let bStr = (if b then ''on'' else ''off''); cStr = (if c then ''on'' else ''off'')
        in ''  '' @ field @ '': '' @ bStr @ '' '' @ arrow @ '' '' @ cStr @ [CHR 0x0A])"

definition emitSecurityConfigDelta :: "Row option \<Rightarrow> Row option \<Rightarrow> stdout \<Rightarrow> bool \<times> stdout" where
  "emitSecurityConfigDelta baseSec currSec out =
     (case (baseSec, currSec) of
        (Some bs, Some cs) \<Rightarrow>
          let changes = secChanges bs cs
          in if length changes = 0 then (False, out)
             else (True, Println '''' (foldl (\<lambda>w ch. Print (secLine ch) w)
                                         (Println ''## Security config changes'' out) changes))
      | _ \<Rightarrow> (False, out))"

definition emitHomebrewDelta :: "Row option \<Rightarrow> Row option \<Rightarrow> stdout \<Rightarrow> bool \<times> stdout" where
  "emitHomebrewDelta baseBrew currBrew out =
     (case (baseBrew, currBrew) of
        (Some bb, Some cb) \<Rightarrow>
          let deltas = intDeltas [''formulae'', ''casks''] bb cb
          in if length deltas = 0 then (False, out)
             else (True, Println '''' (foldl (\<lambda>w d. Print (intLine d) w)
                                         (Println ''## Homebrew delta'' out) deltas))
      | _ \<Rightarrow> (False, out))"

definition emitNewWarnings :: "string list \<Rightarrow> stdout \<Rightarrow> bool \<times> stdout" where
  "emitNewWarnings codes out =
     (if length codes = 0 then (False, out)
      else (True, Println '''' (foldl (\<lambda>w c. Print (''  - '' @ c @ [CHR 0x0A]) w)
                                  (Println ''## New warnings'' out) (sort codes))))"

fun topicIndex :: "string list \<Rightarrow> int \<Rightarrow> string \<Rightarrow> int" where
  "topicIndex [] i topic = 99"
| "topicIndex (t # ts) i topic = (if t = topic then i else topicIndex ts (i + 1) topic)"

definition topicSortKey :: "string \<Rightarrow> int" where
  "topicSortKey topic = topicIndex TopicOrder 0 topic"

text \<open>
  \<^verbatim>\<open>byTopic[topic] = append(byTopic[topic], e)\<close> for every entry in turn; the topics are the
  keys of the map, sorted by \<^verbatim>\<open>topicSortKey\<close> and then by name.
\<close>

definition atList :: "('k \<times> 'v list) list \<Rightarrow> 'k \<Rightarrow> 'v list" where
  "atList m k = (case map_of m k of None \<Rightarrow> [] | Some v \<Rightarrow> v)"

definition groupByTopic :: "probeEntry list \<Rightarrow> (string \<times> probeEntry list) list" where
  "groupByTopic entries =
     foldl (\<lambda>byTopic e. let topic = ProbeTopic (pe_probe e)
                         in AList.update topic (atList byTopic topic @ [e]) byTopic)
       [] entries"

definition sortTopics :: "string list \<Rightarrow> string list" where
  "sortTopics topics = sort_key (\<lambda>t. (topicSortKey t, t)) topics"

definition entryLine :: "(jv \<Rightarrow> string) \<Rightarrow> probeEntry \<Rightarrow> string" where
  "entryLine sprint e =
     (if pe_status e = ''new'' then formatProbeEntryNew sprint (pe_probe e) (pe_currIt e)
      else if pe_status e = ''resolved'' then formatProbeEntryResolved (pe_probe e) (pe_baseIt e)
      else formatProbeEntryChanged (pe_probe e) (pe_baseIt e) (pe_currIt e))"

definition emitProbeFailuresDelta :: "(jv \<Rightarrow> string) \<Rightarrow> Row option \<Rightarrow> Row option \<Rightarrow> stdout \<Rightarrow> bool \<times> stdout" where
  "emitProbeFailuresDelta sprint basePF currPF out =
     (let entries = buildProbeFailureEntries basePF currPF;
          out1 = Println ''## Probe failures delta'' out
      in if length entries = 0
         then (False, Println '''' (Println ''  No changes detected'' out1))
         else
           let byTopic = groupByTopic entries;
               topics = sortTopics (map fst byTopic);
               out2 = foldl (\<lambda>w topic.
                               foldl (\<lambda>w' e. Println (entryLine sprint e) w')
                                 (Print ([CHR 0x0A] @ ''### '' @ topic @ [CHR 0x0A]) w)
                                 (atList byTopic topic))
                        out1 topics
           in (True, Println '''' out2))"

subsection \<open>Rows of a stream (the reader's file)\<close>

definition CollectWarningCodes :: "Row list \<Rightarrow> string list" where
  "CollectWarningCodes rows =
     foldl (\<lambda>codes row.
              if (case idx row ''type'' of JStr t \<Rightarrow> t | _ \<Rightarrow> '''') \<noteq> ''warning'' then codes
              else (case idx row ''code'' of
                      JStr c \<Rightarrow> List.insert c codes
                    | _ \<Rightarrow> if map_of row ''soft_failures'' \<noteq> None
                           then List.insert ''soft_failures'' codes else codes))
       [] rows"

definition GroupByType :: "Row list \<Rightarrow> (string \<times> Row) list" where
  "GroupByType rows =
     foldl (\<lambda>byType row. case idx row ''type'' of
                            JStr t \<Rightarrow> if t \<noteq> '''' then AList.update t row byType else byType
                          | _ \<Rightarrow> byType)
       [] rows"

subsection \<open>Run\<close>

definition Run :: "(jv \<Rightarrow> string) \<Rightarrow> Row list \<Rightarrow> Row list \<Rightarrow> stdout \<Rightarrow> bool \<times> stdout" where
  "Run sprint baselineRows currentRows out0 =
     (let baseByType = GroupByType baselineRows;
          currByType = GroupByType currentRows;
          hasDeltas = False;
          (d1, out1) = emitStorageDelta (map_of baseByType ''summary'') (map_of currByType ''summary'') out0;
          hasDeltas = (d1 \<or> hasDeltas);
          (d2, out2) = emitCountDelta (map_of baseByType ''counts'') (map_of currByType ''counts'') out1;
          hasDeltas = (d2 \<or> hasDeltas);
          (d3, out3) = emitSecurityConfigDelta (map_of baseByType ''security_config'')
                         (map_of currByType ''security_config'') out2;
          hasDeltas = (d3 \<or> hasDeltas);
          (d4, out4) = emitHomebrewDelta (map_of baseByType ''homebrew_summary'')
                         (map_of currByType ''homebrew_summary'') out3;
          hasDeltas = (d4 \<or> hasDeltas);
          baseWarnings = CollectWarningCodes baselineRows;
          currWarnings = CollectWarningCodes currentRows;
          newWarnings = filter (\<lambda>c. c \<notin> set baseWarnings) currWarnings;
          (d5, out5) = emitNewWarnings newWarnings out4;
          hasDeltas = (d5 \<or> hasDeltas);
          (d6, out6) = emitProbeFailuresDelta sprint (map_of baseByType ''probe_failures_summary'')
                         (map_of currByType ''probe_failures_summary'') out5;
          hasDeltas = (d6 \<or> hasDeltas)
      in if \<not> hasDeltas
         then (hasDeltas, Println ''No changes detected between baseline and current.'' out6)
         else (hasDeltas, out6))"

section \<open>The reader (ReadNDJSON)\<close>

text \<open>
  The file is its content, \<open>None\<close> when \<^verbatim>\<open>os.Open\<close> fails. \<^verbatim>\<open>json.Unmarshal\<close> into a
  \<^verbatim>\<open>map[string]any\<close> is the argument \<open>unmarshal\<close>: the message of the error or the decoded
  row.

  \<^verbatim>\<open>bufio.Scanner\<close> with \<^verbatim>\<open>ScanLines\<close> yields the physical lines of the input one call
  at a time: the bytes up to the next newline, or up to the end of the input when
  something follows the last newline, without one trailing carriage return. Its buffer is
  \<^verbatim>\<open>maxLineSize\<close> bytes; when the buffer is full and holds neither the end of the line nor
  the end of the input, \<^verbatim>\<open>Scan\<close> stops with \<^verbatim>\<open>ErrTooLong\<close>, which is the case from
  \<^verbatim>\<open>maxLineSize\<close> bytes in a line on.
\<close>

datatype readError = OpenError | InvalidJSON nat string | ReadError

definition maxLineSize :: nat where
  "maxLineSize = 1024 * 1024"

fun splitLines :: "string \<Rightarrow> string \<Rightarrow> string list" where
  "splitLines cur [] = (if cur = [] then [] else [cur])"
| "splitLines cur (c # cs) =
     (if c = CHR 0x0A then cur # splitLines [] cs else splitLines (cur @ [c]) cs)"

definition dropCR :: "string \<Rightarrow> string" where
  "dropCR l = (if l \<noteq> [] \<and> last l = CHR 0x0D then butlast l else l)"

definition firstLine :: "string \<Rightarrow> string" where
  "firstLine msg = takeWhile (\<lambda>c. c \<noteq> CHR 0x0A) msg"

text \<open>
  The loop of \<^verbatim>\<open>ReadNDJSON\<close> over the lines still to be scanned: \<open>lineNo\<close> is the loop
  counter, \<open>rows\<close> the slice built so far. Running out of lines ends the loop with
  \<^verbatim>\<open>scanner.Err() == nil\<close>; a line that does not fit ends it with the read error.
\<close>

fun readLoop :: "nat \<Rightarrow> (string \<Rightarrow> string + 'r) \<Rightarrow> nat \<Rightarrow> 'r list \<Rightarrow> string list \<Rightarrow> readError + 'r list" where
  "readLoop maxTok unmarshal lineNo rows [] = Inr rows"
| "readLoop maxTok unmarshal lineNo rows (l # ls) =
     (if length l \<ge> maxTok then Inl ReadError
      else
        let line = TrimSpace (dropCR l)
        in if line = [] then readLoop maxTok unmarshal (lineNo + 1) rows ls
           else (case unmarshal line of
                   Inl msg \<Rightarrow> Inl (InvalidJSON lineNo (firstLine msg))
                 | Inr obj \<Rightarrow> readLoop maxTok unmarshal (lineNo + 1) (rows @ [obj]) ls))"

definition ReadNDJSON :: "(string \<Rightarrow> string + 'r) \<Rightarrow> string option \<Rightarrow> readError + 'r list" where
  "ReadNDJSON unmarshal file =
     (case file of
        None \<Rightarrow> Inl OpenError
      | Some content \<Rightarrow> readLoop maxLineSize unmarshal 1 [] (splitLines [] content))"

section \<open>Run-time panics\<close>

text \<open>
  Of the operations on which Go aborts a run with a panic, \<^verbatim>\<open>Run\<close> and the functions it
  calls have two: they write into maps, and the comparison functions of their sorts index a
  slice. Their type assertions are all of the two-value form or type switches, which yield
  the zero value and are written so above; their only divisions are of float64; and they
  have no pointer, no slice expression and no conversion that can fail. The functions that
  write a map or index a slice, and the functions that call them, are written a second time
  in this section with the failure of these operations as a result: a map that may be nil
  is an option (\<open>None\<close> is the nil map, \<^verbatim>\<open>make\<close> gives \<open>Some []\<close>), a write into a map and
  an index into a slice return a panic or a value, and a function returns the first panic
  it meets. The functions that neither write a map nor index a slice are used as they are
  above.
\<close>

datatype panic = NilMapWrite | IndexOutOfRange

definition andThen :: "panic + 'a \<Rightarrow> ('a \<Rightarrow> panic + 'b) \<Rightarrow> panic + 'b" where
  "andThen r f = (case r of Inl e \<Rightarrow> Inl e | Inr x \<Rightarrow> f x)"

text \<open>A \<^verbatim>\<open>for ... range\<close> loop over a slice, or over a map in one order of visit.\<close>

fun forEach :: "('s \<Rightarrow> 'a \<Rightarrow> panic + 's) \<Rightarrow> 's \<Rightarrow> 'a list \<Rightarrow> panic + 's" where
  "forEach body s [] = Inr s"
| "forEach body s (x # xs) = andThen (body s x) (\<lambda>s'. forEach body s' xs)"

text \<open>
  \<^verbatim>\<open>make(map[K]V)\<close>, \<^verbatim>\<open>m[k] = v\<close>, and what reading, measuring and ranging see of a map
  (nothing in a nil map).
\<close>

definition makeMap :: "('k \<times> 'v) list option" where
  "makeMap = Some []"

definition mapStore :: "'k \<Rightarrow> 'v \<Rightarrow> ('k \<times> 'v) list option \<Rightarrow> panic + ('k \<times> 'v) list option" where
  "mapStore k v m = (case m of None \<Rightarrow> Inl NilMapWrite | Some kvs \<Rightarrow> Inr (Some (AList.update k v kvs)))"

definition mapEntries :: "('k \<times> 'v) list option \<Rightarrow> ('k \<times> 'v) list" where
  "mapEntries m = (case m of None \<Rightarrow> [] | Some kvs \<Rightarrow> kvs)"

text \<open>The same for a \<^verbatim>\<open>map[K]struct{}\<close>, which the package uses as a set.\<close>

definition makeSet :: "'k list option" where
  "makeSet = Some []"

definition setStore :: "'k \<Rightarrow> 'k list option \<Rightarrow> panic + 'k list option" where
  "setStore k s = (case s of None \<Rightarrow> Inl NilMapWrite | Some ks \<Rightarrow> Inr (Some (List.insert k ks)))"

definition setMembers :: "'k list option \<Rightarrow> 'k list" where
  "setMembers s = (case s of None \<Rightarrow> [] | Some ks \<Rightarrow> ks)"

text \<open>\<^verbatim>\<open>xs[i]\<close>.\<close>

definition sliceAt :: "'a list \<Rightarrow> nat \<Rightarrow> panic + 'a" where
  "sliceAt xs i = (if i < length xs then Inr (xs ! i) else Inl IndexOutOfRange)"

text \<open>
  \<^verbatim>\<open>sort.Slice(xs, less)\<close> with a \<^verbatim>\<open>less\<close> that compares the keys of \<^verbatim>\<open>xs[i]\<close> and \<^verbatim>\<open>xs[j]\<close>.
  The library calls \<^verbatim>\<open>less(i, j)\<close> only with both indices below the length of the slice,
  whose elements it permutes; the sort panics when one of these calls can.
\<close>

definition lessAt :: "('a \<Rightarrow> 'k::linorder) \<Rightarrow> 'a list \<Rightarrow> nat \<Rightarrow> nat \<Rightarrow> panic + bool" where
  "lessAt key xs i j =
     andThen (sliceAt xs i) (\<lambda>a. andThen (sliceAt xs j) (\<lambda>b. Inr (key a < key b)))"

definition sortSlice_chk :: "('a \<Rightarrow> 'k::linorder) \<Rightarrow> 'a list \<Rightarrow> panic + 'a list" where
  "sortSlice_chk key xs =
     (if list_all (\<lambda>i. list_all (\<lambda>j. \<not> isl (lessAt key xs i j)) [0..<length xs]) [0..<length xs]
      then Inr (sort_key key xs)
      else Inl IndexOutOfRange)"

text \<open>\<^verbatim>\<open>getMap\<close> with the nil map it returns when the assertion fails kept apart.\<close>

definition getMapN :: "Row option \<Rightarrow> string \<Rightarrow> (string \<times> jv) list option" where
  "getMapN row key = (case idxN row key of JObj m \<Rightarrow> Some m | _ \<Rightarrow> None)"

subsection \<open>The functions that write a map or index a slice\<close>

definition GroupByType_chk :: "Row list \<Rightarrow> panic + (string \<times> Row) list option" where
  "GroupByType_chk rows =
     forEach (\<lambda>byType row. case idx row ''type'' of
                              JStr t \<Rightarrow> if t \<noteq> '''' then mapStore t row byType else Inr byType
                            | _ \<Rightarrow> Inr byType)
       makeMap rows"

definition CollectWarningCodes_chk :: "Row list \<Rightarrow> panic + string list option" where
  "CollectWarningCodes_chk rows =
     forEach (\<lambda>codes row.
                if (case idx row ''type'' of JStr t \<Rightarrow> t | _ \<Rightarrow> '''') \<noteq> ''warning'' then Inr codes
                else (case idx row ''code'' of
                        JStr c \<Rightarrow> setStore c codes
                      | _ \<Rightarrow> if map_of row ''soft_failures'' \<noteq> None
                             then setStore ''soft_failures'' codes else Inr codes))
       makeSet rows"

definition collectCodes_chk :: "(string \<times> jv) list \<Rightarrow> panic + int list option" where
  "collectCodes_chk exitCodes =
     forEach (\<lambda>codes kv. case sscanInt (fst kv) of Some c \<Rightarrow> setStore c codes | None \<Rightarrow> Inr codes)
       makeSet exitCodes"

definition ExpectedState_chk :: "string \<Rightarrow> (string \<times> jv) list \<Rightarrow> panic + string" where
  "ExpectedState_chk probe exitCodes =
     (let expected = (case map_of probeExpectedExitCodes probe of None \<Rightarrow> [] | Some e \<Rightarrow> e)
      in if length expected = 0 then Inr ''unexpected''
         else
           andThen (collectCodes_chk exitCodes) (\<lambda>codes.
             if length (setMembers codes) = 0 then Inr ''unexpected''
             else
               let (allInExpected, hasOverlap) = overlapFlags expected (setMembers codes)
               in if allInExpected then Inr ''expected''
                  else if hasOverlap then Inr ''mixed''
                  else Inr ''unexpected''))"

definition ExpectedSuffix_chk :: "string \<Rightarrow> (string \<times> jv) list \<Rightarrow> panic + string" where
  "ExpectedSuffix_chk probe exitCodes =
     andThen (ExpectedState_chk probe exitCodes) (\<lambda>state.
       if state = ''expected'' then Inr '' (expected)''
       else if state = ''mixed'' then Inr '' (mixed)''
       else Inr '''')"

definition exitCodesDelta_chk :: "(string \<times> jv) list \<Rightarrow> (string \<times> jv) list \<Rightarrow> panic + (string \<times> int) list option" where
  "exitCodesDelta_chk baseEC currEC =
     andThen (forEach (\<lambda>s kv. setStore (fst kv) s) makeSet baseEC) (\<lambda>s1.
     andThen (forEach (\<lambda>s kv. setStore (fst kv) s) s1 currEC) (\<lambda>allCodes.
       forEach (\<lambda>delta c. mapStore c (wrap64 (toInt (idx currEC c) - toInt (idx baseEC c))) delta)
         makeMap (setMembers allCodes)))"

definition normExitCodes_chk :: "(string \<times> jv) list option \<Rightarrow> panic + (int \<times> int) list option" where
  "normExitCodes_chk ec =
     (case ec of
        None \<Rightarrow> Inr None
      | Some kvs \<Rightarrow>
          forEach (\<lambda>out kv. case sscanInt (fst kv) of
                              Some kk \<Rightarrow> mapStore kk (toInt (snd kv)) out
                            | None \<Rightarrow> Inr out)
            makeMap kvs)"

definition probeFailureIsChanged_chk :: "string \<Rightarrow> Row option \<Rightarrow> Row option \<Rightarrow> panic + bool" where
  "probeFailureIsChanged_chk probe baseIt currIt =
     (if baseIt = None \<or> currIt = None then Inr True
      else if toInt (idxN baseIt ''count'') \<noteq> toInt (idxN currIt ''count'') then Inr True
      else
        let baseEC = getMapN baseIt ''exit_codes'';
            currEC = getMapN currIt ''exit_codes''
        in andThen (normExitCodes_chk baseEC) (\<lambda>a.
           andThen (normExitCodes_chk currEC) (\<lambda>b.
             if \<not> mapsEqual (mapEntries a) (mapEntries b) then Inr True
             else
               andThen (ExpectedState_chk probe (mapEntries baseEC)) (\<lambda>baseState.
               andThen (ExpectedState_chk probe (mapEntries currEC)) (\<lambda>currState.
                 Inr (baseState \<noteq> currState))))))"

definition indexItems_chk :: "jv list \<Rightarrow> panic + (string \<times> Row) list option" where
  "indexItems_chk items =
     forEach (\<lambda>probes it. case it of
                             JObj row \<Rightarrow> (case idx row ''probe'' of
                                            JStr p \<Rightarrow> mapStore p row probes
                                          | _ \<Rightarrow> Inr probes)
                           | _ \<Rightarrow> Inr probes)
       makeMap items"

definition sortProbes_chk :: "string list \<Rightarrow> string \<Rightarrow> panic + string list" where
  "sortProbes_chk probes status = sortSlice_chk (\<lambda>p. probeSortKey p status) probes"

definition buildProbeFailureEntries_chk :: "Row option \<Rightarrow> Row option \<Rightarrow> panic + probeEntry list" where
  "buildProbeFailureEntries_chk basePF currPF =
     andThen (indexItems_chk (getSlice basePF ''items'')) (\<lambda>baseMap.
     andThen (indexItems_chk (getSlice currPF ''items'')) (\<lambda>currMap.
       let baseProbes = mapEntries baseMap;
           currProbes = mapEntries currMap;
           newProbes = filter (\<lambda>p. map_of baseProbes p = None) (map fst currProbes);
           resolvedProbes = filter (\<lambda>p. map_of currProbes p = None) (map fst baseProbes)
       in andThen
            (forEach (\<lambda>changedProbes p.
                        if map_of currProbes p \<noteq> None
                        then andThen (probeFailureIsChanged_chk p (map_of baseProbes p) (map_of currProbes p))
                               (\<lambda>c. Inr (if c then changedProbes @ [p] else changedProbes))
                        else Inr changedProbes)
               [] (map fst baseProbes)) (\<lambda>changedProbes.
          andThen (sortProbes_chk newProbes ''new'') (\<lambda>newSorted.
          andThen (sortProbes_chk resolvedProbes ''resolved'') (\<lambda>resolvedSorted.
          andThen (sortProbes_chk changedProbes ''changed'') (\<lambda>changedSorted.
            Inr (map (\<lambda>p. \<lparr>pe_status = ''new'', pe_probe = p, pe_baseIt = None,
                           pe_currIt = map_of currProbes p\<rparr>) newSorted
                 @ map (\<lambda>p. \<lparr>pe_status = ''resolved'', pe_probe = p, pe_baseIt = map_of baseProbes p,
                              pe_currIt = None\<rparr>) resolvedSorted
                 @ map (\<lambda>p. \<lparr>pe_status = ''changed'', pe_probe = p, pe_baseIt = map_of baseProbes p,
                              pe_currIt = map_of currProbes p\<rparr>) changedSorted)))))))"

definition formatProbeEntryNew_chk :: "(jv \<Rightarrow> string) \<Rightarrow> string \<Rightarrow> Row option \<Rightarrow> panic + string" where
  "formatProbeEntryNew_chk sprint probe currIt =
     (let c = toInt (idxN currIt ''count'');
          ec = getMap currIt ''exit_codes'';
          spanStr = SpanFormat c (idxN currIt ''duration_ms'') (idxN currIt ''failure_rate'')
                      (idxN currIt ''first_ts_ms'') (idxN currIt ''last_ts_ms'') (fmtTsMs sprint)
      in andThen (ExpectedSuffix_chk probe ec) (\<lambda>expSuffix.
           Inr (''  + '' @ probe @ '' failed '' @ showInt c @ times @ '' ('' @ spanStr
                @ ''), exit_codes: {'' @ formatExitCodes ec @ ''}'' @ expSuffix)))"

definition formatProbeEntryResolved_chk :: "string \<Rightarrow> Row option \<Rightarrow> panic + string" where
  "formatProbeEntryResolved_chk probe baseIt =
     (let c = toInt (idxN baseIt ''count'');
          ec = getMap baseIt ''exit_codes''
      in andThen (ExpectedSuffix_chk probe ec) (\<lambda>expSuffix.
           Inr (''  - '' @ probe @ '' resolved (was '' @ showInt c @ times @ '', exit_codes: {''
                @ formatExitCodes ec @ ''})'' @ expSuffix)))"

definition formatProbeEntryChanged_chk :: "string \<Rightarrow> Row option \<Rightarrow> Row option \<Rightarrow> panic + string" where
  "formatProbeEntryChanged_chk probe baseIt currIt =
     (let bc = toInt (idxN baseIt ''count'');
          cc = toInt (idxN currIt ''count'')
      in andThen (exitCodesDelta_chk (getMap baseIt ''exit_codes'') (getMap currIt ''exit_codes'')) (\<lambda>ecDelta.
           let deltaStr = formatExitCodesDelta (mapEntries ecDelta)
           in andThen (ExpectedSuffix_chk probe (getMap currIt ''exit_codes'')) (\<lambda>expSuffix.
                if deltaStr \<noteq> ''''
                then Inr (''  ~ '' @ probe @ '' '' @ showInt bc @ times @ arrow @ showInt cc @ times
                          @ '', exit_codes: '' @ deltaStr @ expSuffix)
                else Inr (''  ~ '' @ probe @ '' '' @ showInt bc @ times @ arrow @ showInt cc @ times
                          @ expSuffix))))"

definition entryLine_chk :: "(jv \<Rightarrow> string) \<Rightarrow> probeEntry \<Rightarrow> panic + string" where
  "entryLine_chk sprint e =
     (if pe_status e = ''new'' then formatProbeEntryNew_chk sprint (pe_probe e) (pe_currIt e)
      else if pe_status e = ''resolved'' then formatProbeEntryResolved_chk (pe_probe e) (pe_baseIt e)
      else formatProbeEntryChanged_chk (pe_probe e) (pe_baseIt e) (pe_currIt e))"

definition groupByTopic_chk :: "probeEntry list \<Rightarrow> panic + (string \<times> probeEntry list) list option" where
  "groupByTopic_chk entries =
     forEach (\<lambda>byTopic e. let topic = ProbeTopic (pe_probe e)
                           in mapStore topic (atList (mapEntries byTopic) topic @ [e]) byTopic)
       makeMap entries"

definition sortTopics_chk :: "string list \<Rightarrow> panic + string list" where
  "sortTopics_chk topics = sortSlice_chk (\<lambda>t. (topicSortKey t, t)) topics"

definition emitProbeFailuresDelta_chk :: "(jv \<Rightarrow> string) \<Rightarrow> Row option \<Rightarrow> Row option \<Rightarrow> stdout
    \<Rightarrow> panic + bool \<times> stdout" where
  "emitProbeFailuresDelta_chk sprint basePF currPF out =
     andThen (buildProbeFailureEntries_chk basePF currPF) (\<lambda>entries.
       let out1 = Println ''## Probe failures delta'' out
       in if length entries = 0
          then Inr (False, Println '''' (Println ''  No changes detected'' out1))
          else
            andThen (groupByTopic_chk entries) (\<lambda>byTopic.
            andThen (sortTopics_chk (map fst (mapEntries byTopic))) (\<lambda>topics.
            andThen (forEach (\<lambda>w topic.
                                forEach (\<lambda>w' e. andThen (entryLine_chk sprint e)
                                                   (\<lambda>line. Inr (Println line w')))
                                  (Print ([CHR 0x0A] @ ''### '' @ topic @ [CHR 0x0A]) w)
                                  (atList (mapEntries byTopic) topic))
                       out1 topics) (\<lambda>out2.
              Inr (True, Println '''' out2)))))"

definition Run_chk :: "(jv \<Rightarrow> string) \<Rightarrow> Row list \<Rightarrow> Row list \<Rightarrow> stdout \<Rightarrow> panic + bool \<times> stdout" where
  "Run_chk sprint baselineRows currentRows out0 =
     andThen (GroupByType_chk baselineRows) (\<lambda>baseMap.
     andThen (GroupByType_chk currentRows) (\<lambda>currMap.
       let baseByType = mapEntries baseMap;
           currByType = mapEntries currMap;
           hasDeltas = False;
           (d1, out1) = emitStorageDelta (map_of baseByType ''summary'') (map_of currByType ''summary'') out0;
           hasDeltas = (d1 \<or> hasDeltas);
           (d2, out2) = emitCountDelta (map_of baseByType ''counts'') (map_of currByType ''counts'') out1;
           hasDeltas = (d2 \<or> hasDeltas);
           (d3, out3) = emitSecurityConfigDelta (map_of baseByType ''security_config'')
                          (map_of currByType ''security_config'') out2;
           hasDeltas = (d3 \<or> hasDeltas);
           (d4, out4) = emitHomebrewDelta (map_of baseByType ''homebrew_summary'')
                          (map_of currByType ''homebrew_summary'') out3;
           hasDeltas = (d4 \<or> hasDeltas)
       in andThen (CollectWarningCodes_chk baselineRows) (\<lambda>baseSet.
          andThen (CollectWarningCodes_chk currentRows) (\<lambda>currSet.
            let baseWarnings = setMembers baseSet;
                currWarnings = setMembers currSet;
                newWarnings = filter (\<lambda>c. c \<notin> set baseWarnings) currWarnings;
                (d5, out5) = emitNewWarnings newWarnings out4;
                hasDeltas = (d5 \<or> hasDeltas)
            in andThen (emitProbeFailuresDelta_chk sprint (map_of baseByType ''probe_failures_summary'')
                          (map_of currByType ''probe_failures_summary'') out5) (\<lambda>(d6, out6).
                 let hasDeltas = (d6 \<or> hasDeltas)
                 in if \<not> hasDeltas
                    then Inr (hasDeltas, Println ''No changes detected between baseline and current.'' out6)
                    else Inr (hasDeltas, out6))))))"

section \<open>What an emitter prints\<close>

text \<open>
  The text an emitter adds to the output and the flag it returns, read off a run that
  starts with nothing written.
\<close>

definition printed :: "(stdout \<Rightarrow> bool \<times> stdout) \<Rightarrow> string" where
  "printed em = snd (em [])"

definition found :: "(stdout \<Rightarrow> bool \<times> stdout) \<Rightarrow> bool" where
  "found em = fst (em [])"

section \<open>Statements in the words of the specification\<close>

text \<open>
  The span of a new-probe entry as the specification words it: \<^verbatim>\<open>single-shot\<close> for a count
  of 1, \<^verbatim>\<open>tight burst\<close> for a count above 1 with a duration of 0, otherwise the two
  timestamps, with the rate when the duration is at least 1000 ms and the rate positive.
\<close>

definition spanBySpec :: "int \<Rightarrow> jv \<Rightarrow> jv \<Rightarrow> jv \<Rightarrow> jv \<Rightarrow> (jv \<Rightarrow> string) \<Rightarrow> string" where
  "spanBySpec count durMs rate firstTs lastTs fmtTs =
     (if count = 1 then ''single-shot''
      else if count > 1 \<and> toFloat64 durMs = 0 then ''tight burst''
      else fmtTs firstTs @ '' '' @ arrow @ '' '' @ fmtTs lastTs
           @ (if toFloat64 durMs \<ge> 1000 \<and> toFloat64 rate > 0
              then '' ('' @ fmtFixed 2 (toFloat64 rate) @ ''/s)'' else ''''))"

text \<open>
  The sort key of an entry as the specification has it, (severity rank, status rank,
  probe), which is \<^verbatim>\<open>probeSortKey\<close>; and the key with the status rank first.
\<close>

definition entryKey :: "probeEntry \<Rightarrow> int \<times> int \<times> string" where
  "entryKey e = probeSortKey (pe_probe e) (pe_status e)"

definition statusFirstKey :: "probeEntry \<Rightarrow> int \<times> int \<times> string" where
  "statusFirstKey e = (case entryKey e of (sev, so, p) \<Rightarrow> (so, sev, p))"



text \<open>
  What the reader does with a physical line: the text it hands to the decoder, whether the
  line lets the loop go on (it fits the buffer and is blank or decodes), and the records
  of the lines that are not blank.
\<close>

definition lineText :: "string \<Rightarrow> string" where
  "lineText l = TrimSpace (dropCR l)"

definition lineOk :: "nat \<Rightarrow> (string \<Rightarrow> string + 'r) \<Rightarrow> string \<Rightarrow> bool" where
  "lineOk maxTok unmarshal l \<longleftrightarrow>
     length l < maxTok \<and> (lineText l = [] \<or> \<not> isl (unmarshal (lineText l)))"

definition recordsOf :: "(string \<Rightarrow> string + 'r) \<Rightarrow> string list \<Rightarrow> 'r list" where
  "recordsOf unmarshal lines =
     map (\<lambda>l. projr (unmarshal (lineText l))) (filter (\<lambda>l. lineText l \<noteq> []) lines)"

text \<open>
  The values that the type switches of \<^verbatim>\<open>toInt\<close> and \<^verbatim>\<open>toFloat64\<close> take for a number.
\<close>

definition isNumber :: "jv \<Rightarrow> bool" where
  "isNumber v = (case v of JFloat x \<Rightarrow> True | JInt x \<Rightarrow> True | JInt64 x \<Rightarrow> True | _ \<Rightarrow> False)"

section \<open>Sample records\<close>

definition pfSummary :: "jv list \<Rightarrow> Row" where
  "pfSummary items = [(''type'', JStr ''probe_failures_summary''), (''items'', JArr items)]"

definition pfRow :: "string \<Rightarrow> real \<Rightarrow> (string \<times> jv) list \<Rightarrow> Row" where
  "pfRow p n ec = [(''probe'', JStr p), (''count'', JFloat n), (''exit_codes'', JObj ec)]"

definition pfItem :: "string \<Rightarrow> real \<Rightarrow> (string \<times> jv) list \<Rightarrow> jv" where
  "pfItem p n ec = JObj (pfRow p n ec)"

text \<open>The unchanged probe of the package's test \<^verbatim>\<open>TestRun_NoOpChange_NotEmitted\<close>.\<close>

definition noopRow :: Row where
  "noopRow = pfRow ''config.defaults_firewall_globalstate'' 22 [(''1'', JFloat 22)]"

definition noopItem :: jv where
  "noopItem = JObj noopRow"



text \<open>The spanned failure of the README.\<close>

definition spannedItem :: Row where
  "spannedItem =
     [(''probe'', JStr ''network.ifconfig_list''), (''count'', JFloat 12),
      (''duration_ms'', JFloat 2100), (''failure_rate'', JFloat (571 / 100)),
      (''first_ts_ms'', JFloat 1708600301000), (''last_ts_ms'', JFloat 1708600303100),
      (''exit_codes'', JObj [(''1'', JFloat 12)])]"

text \<open>
  \<^verbatim>\<open>fmt.Sprint\<close> for the samples: exact on a string and on a boolean, the only values
  besides nil and numbers that a sample would hold for a timestamp.
\<close>

definition sprintText :: "jv \<Rightarrow> string" where
  "sprintText v = (case v of JStr s \<Rightarrow> s | JBool b \<Rightarrow> (if b then ''true'' else ''false'') | _ \<Rightarrow> '''')"

text \<open>
  Two snapshots with one probe each under the topic Network: a high-severity probe that
  is resolved and a medium-severity probe that is new.
\<close>

definition orderBase :: Row where
  "orderBase = pfSummary [pfItem ''network.defaults_a'' 1 [(''1'', JFloat 1)]]"

definition orderCurr :: Row where
  "orderCurr = pfSummary [pfItem ''network.ifconfig_b'' 1 [(''1'', JFloat 1)]]"





text \<open>
  One probe whose exit-code map has the keys \<^verbatim>\<open>"1"\<close> and \<^verbatim>\<open>"01"\<close>, written in the two
  orders in which a loop can visit them.
\<close>

definition twoKeys :: "(string \<times> jv) list" where
  "twoKeys = [(''1'', JFloat 5), (''01'', JFloat 3)]"

definition dupFirstOrder :: Row where
  "dupFirstOrder = pfSummary [pfItem ''storage.df'' 8 twoKeys]"

definition dupOtherOrder :: Row where
  "dupOtherOrder = pfSummary [pfItem ''storage.df'' 8 (rev twoKeys)]"

text \<open>
  A decoder for the sample streams: it accepts a line in braces and returns it as it is.
  Two streams: one that reads completely, with a blank line and a line of blanks, and one
  whose fifth physical line does not decode.
\<close>

definition bracesOnly :: "string \<Rightarrow> string + string" where
  "bracesOnly s =
     (if s \<noteq> [] \<and> hd s = CHR ''{'' \<and> last s = CHR ''}'' then Inr s
      else Inl (''invalid character'' @ [CHR 0x0A] @ ''second line of the message''))"

definition goodStream :: string where
  "goodStream = ''{a}'' @ [CHR 0x0A] @ [CHR 0x0A] @ ''  '' @ [CHR 0x0D, CHR 0x0A] @ '' {b} ''
                @ [CHR 0x0A]"

definition badStream :: string where
  "badStream = ''{a}'' @ [CHR 0x0A] @ [CHR 0x0A] @ ''  '' @ [CHR 0x0A] @ ''{b}''
               @ [CHR 0x0D, CHR 0x0A] @ ''oops'' @ [CHR 0x0A] @ ''{c}''"

text \<open>
  Malformed records. A baseline whose probe summary holds a number for its items, and a
  current snapshot with a row whose type is a number, a row whose type is the empty
  string, and a probe summary whose items are a string, a map whose probe is a number, and
  a map with a probe name, words for its count and its exit codes, and nothing else.
\<close>

definition looseRow :: Row where
  "looseRow = [(''probe'', JStr ''storage.df''), (''count'', JStr ''many''), (''exit_codes'', JStr ''none'')]"

definition numberTypeRow :: Row where
  "numberTypeRow = [(''type'', JFloat 1), (''home_bytes'', JFloat 5)]"

definition emptyTypeRow :: Row where
  "emptyTypeRow = [(''type'', JStr ''''), (''home_bytes'', JFloat 7)]"

definition itemsNumberRow :: Row where
  "itemsNumberRow = [(''type'', JStr ''probe_failures_summary''), (''items'', JFloat 3)]"

definition malformedBase :: "Row list" where
  "malformedBase = [itemsNumberRow]"

definition malformedCurr :: "Row list" where
  "malformedCurr =
     [numberTypeRow, emptyTypeRow,
      pfSummary [JStr ''junk'', JObj [(''probe'', JFloat 7)], JObj looseRow]]"
section \<open>Library models at sample inputs\<close>

text \<open>
  The scan of \<^verbatim>\<open>%d\<close> stops at the first character that is no decimal digit, and the
  conversion and the arithmetic of float64 round.
\<close>

lemmas scan_eval =
  sscanInt_def isBlank_def isSpace2_def isSpace3_def isDigit_def digitsVal_def digitVal_def
  inInt64_def

lemmas num_eval = floatToInt_def truncReal_def wrap64_def

lemma sscanInt_samples:
  "sscanInt ''1_0'' = Some 1"
  "sscanInt ''70_1'' = Some 70"
  "sscanInt '' -7x'' = Some (- 7)"
  "sscanInt ''_1'' = None"
  "sscanInt ''x'' = None"
  "sscanInt ''9223372036854775808'' = None"
  by (simp_all add: scan_eval)

lemma fl64_zero [simp]: "fl64 0 = 0"
  by (simp add: fl64_def)

lemma intToFloat_zero [simp]: "intToFloat 0 = 0"
  by (simp add: intToFloat_def)

lemma fl64_samples:
  "fl64 (1 / 10) = 3602879701896397 / 36028797018963968"
  "fl64 (fl64 (1 / 2000) * 100) = 3602879701896397 / 72057594037927936"
  "intToFloat 9007199254740993 = 9007199254740992"
  "intToFloat 9223372036854775807 = 9223372036854775808"
  "fl64 (- 1024) = - 1024"
  by code_simp+

section \<open>Severity lookup\<close>

lemma list_all_take_nth:
  assumes "list_all P (take n xs)" "n \<le> length xs"
  shows "\<forall>j<n. P (xs ! j)"
proof (intro allI impI)
  fix j assume "j < n"
  then have "j < length (take n xs)" using assms(2) by simp
  then have "take n xs ! j \<in> set (take n xs)" by (rule nth_mem)
  with assms(1) have "P (take n xs ! j)" by (simp add: list_all_iff)
  with \<open>j < n\<close> show "P (xs ! j)" by simp
qed

lemma prefixScan_first:
  assumes "i < length ps" "HasPrefix probe (fst (ps ! i))"
    and "\<forall>j<i. \<not> HasPrefix probe (fst (ps ! j))"
  shows "prefixScan ps probe d = snd (ps ! i)"
  using assms
proof (induction ps arbitrary: i)
  case Nil
  then show ?case by simp
next
  case (Cons p ps)
  show ?case
  proof (cases i)
    case 0
    with Cons.prems show ?thesis by simp
  next
    case (Suc k)
    from Cons.prems(3) Suc have "\<not> HasPrefix probe (fst p)"
      by (metis nth_Cons_0 zero_less_Suc)
    moreover have "prefixScan ps probe d = snd (ps ! k)"
    proof (rule Cons.IH)
      show "k < length ps" using Cons.prems(1) Suc by simp
      show "HasPrefix probe (fst (ps ! k))" using Cons.prems(2) Suc by simp
      show "\<forall>j<k. \<not> HasPrefix probe (fst (ps ! j))"
      proof (intro allI impI)
        fix j assume "j < k"
        then have "Suc j < i" using Suc by simp
        with Cons.prems(3) have "\<not> HasPrefix probe (fst ((p # ps) ! Suc j))" by blast
        then show "\<not> HasPrefix probe (fst (ps ! j))" by simp
      qed
    qed
    ultimately show ?thesis using Suc by simp
  qed
qed

lemma prefixScan_none:
  "\<forall>p \<in> set ps. \<not> HasPrefix probe (fst p) \<Longrightarrow> prefixScan ps probe d = d"
  by (induction ps) auto

lemma ProbeSeverityIn_exact:
  "map_of exact probe = Some sev \<Longrightarrow> ProbeSeverityIn exact prefixes probe = sev"
  by (simp add: ProbeSeverityIn_def)

lemma ProbeSeverityIn_first_prefix:
  assumes "map_of exact probe = None" "i < length prefixes"
    and "HasPrefix probe (fst (prefixes ! i))"
    and "\<forall>j<i. \<not> HasPrefix probe (fst (prefixes ! j))"
  shows "ProbeSeverityIn exact prefixes probe = snd (prefixes ! i)"
  using assms by (simp add: ProbeSeverityIn_def prefixScan_first)

lemma ProbeSeverityIn_default:
  assumes "map_of exact probe = None" "\<forall>p \<in> set prefixes. \<not> HasPrefix probe (fst p)"
  shows "ProbeSeverityIn exact prefixes probe = ''low''"
  using assms by (simp add: ProbeSeverityIn_def prefixScan_none)

text \<open>
  Claim C5. \<^verbatim>\<open>ProbeSeverity\<close> returns the entry of the exact table when the probe has one;
  otherwise the severity of the first entry of the prefix table, in declared order, whose
  prefix the probe starts with; otherwise \<^verbatim>\<open>"low"\<close>. The same three cases hold of the
  lookup over any pair of tables (the last three conjuncts), so an exact entry overrides
  every prefix match and an earlier matching prefix wins over the later ones whatever the
  tables hold.
\<close>

theorem ProbeSeverity_precedence:
  "(\<forall>sev. map_of probeSeverityExact probe = Some sev \<longrightarrow> ProbeSeverity probe = sev)
   \<and> (\<forall>i. map_of probeSeverityExact probe = None \<and> i < length probeSeverityPrefix
          \<and> HasPrefix probe (fst (probeSeverityPrefix ! i))
          \<and> (\<forall>j<i. \<not> HasPrefix probe (fst (probeSeverityPrefix ! j)))
        \<longrightarrow> ProbeSeverity probe = snd (probeSeverityPrefix ! i))
   \<and> (map_of probeSeverityExact probe = None
        \<and> (\<forall>p \<in> set probeSeverityPrefix. \<not> HasPrefix probe (fst p))
        \<longrightarrow> ProbeSeverity probe = ''low'')
   \<and> (\<forall>sev. map_of exact probe = Some sev \<longrightarrow> ProbeSeverityIn exact prefixes probe = sev)
   \<and> (\<forall>i. map_of exact probe = None \<and> i < length prefixes
          \<and> HasPrefix probe (fst (prefixes ! i))
          \<and> (\<forall>j<i. \<not> HasPrefix probe (fst (prefixes ! j)))
        \<longrightarrow> ProbeSeverityIn exact prefixes probe = snd (prefixes ! i))
   \<and> (map_of exact probe = None \<and> (\<forall>p \<in> set prefixes. \<not> HasPrefix probe (fst p))
        \<longrightarrow> ProbeSeverityIn exact prefixes probe = ''low'')"
  unfolding ProbeSeverity_def
  using ProbeSeverityIn_exact ProbeSeverityIn_first_prefix ProbeSeverityIn_default
  by blast

theorem ProbeSeverity_precedence_witness:
  "ProbeSeverity ''network.socketfilterfw_stealth'' = ''high''
   \<and> ProbeSeverityIn [(''net.a'', ''low'')] [(''net.'', ''high'')] ''net.a'' = ''low''
   \<and> ProbeSeverity ''network.ifconfig_iface'' = ''medium''
   \<and> ProbeSeverityIn [] [(''net.'', ''high''), (''net.if'', ''low'')] ''net.ifx'' = ''high''
   \<and> ProbeSeverity ''storage.df'' = ''low''"
proof (intro conjI)
  have "map_of probeSeverityExact ''network.socketfilterfw_stealth'' = Some ''high''"
    by (simp add: probeSeverityExact_def)
  then show "ProbeSeverity ''network.socketfilterfw_stealth'' = ''high''"
    using ProbeSeverity_precedence [of "''network.socketfilterfw_stealth''"] by blast
next
  have "map_of [(''net.a'', ''low'')] ''net.a'' = Some ''low''" by simp
  then show "ProbeSeverityIn [(''net.a'', ''low'')] [(''net.'', ''high'')] ''net.a'' = ''low''"
    using ProbeSeverity_precedence [of "''net.a''" "[(''net.a'', ''low'')]" "[(''net.'', ''high'')]"]
    by blast
next
  have none: "map_of probeSeverityExact ''network.ifconfig_iface'' = None"
    by (simp add: probeSeverityExact_def)
  have len: "5 < length probeSeverityPrefix"
    by (simp add: probeSeverityPrefix_def)
  have hit: "HasPrefix ''network.ifconfig_iface'' (fst (probeSeverityPrefix ! 5))"
    by (simp add: probeSeverityPrefix_def HasPrefix_def)
  have "list_all (\<lambda>p. \<not> HasPrefix ''network.ifconfig_iface'' (fst p)) (take 5 probeSeverityPrefix)"
    by (simp add: probeSeverityPrefix_def HasPrefix_def)
  then have before: "\<forall>j<5. \<not> HasPrefix ''network.ifconfig_iface'' (fst (probeSeverityPrefix ! j))"
    using len by (intro list_all_take_nth) simp_all
  have sev: "snd (probeSeverityPrefix ! 5) = ''medium''"
    by (simp add: probeSeverityPrefix_def)
  from ProbeSeverity_precedence [of "''network.ifconfig_iface''", THEN conjunct2, THEN conjunct1,
      rule_format, of 5] none len hit before
  have "ProbeSeverity ''network.ifconfig_iface'' = snd (probeSeverityPrefix ! 5)"
    by blast
  with sev show "ProbeSeverity ''network.ifconfig_iface'' = ''medium''" by simp
next
  have "HasPrefix ''net.ifx'' ''net.''" by (simp add: HasPrefix_def)
  then show "ProbeSeverityIn [] [(''net.'', ''high''), (''net.if'', ''low'')] ''net.ifx'' = ''high''"
    using ProbeSeverity_precedence [of "''net.ifx''" "[]"
        "[(''net.'', ''high''), (''net.if'', ''low'')]", THEN conjunct2, THEN conjunct2,
        THEN conjunct2, THEN conjunct2, THEN conjunct1, rule_format, of 0]
    by simp
next
  have none: "map_of probeSeverityExact ''storage.df'' = None"
    by (simp add: probeSeverityExact_def)
  have "\<forall>p \<in> set probeSeverityPrefix. \<not> HasPrefix ''storage.df'' (fst p)"
    by (simp add: probeSeverityPrefix_def HasPrefix_def)
  with none show "ProbeSeverity ''storage.df'' = ''low''"
    using ProbeSeverity_precedence [of "''storage.df''"] by blast
qed

section \<open>Expected state\<close>

lemma collectCodes_fold_set:
  "set (foldl (\<lambda>codes kv. case sscanInt (fst kv) of Some c \<Rightarrow> List.insert c codes | None \<Rightarrow> codes)
          acc ec)
   = set acc \<union> keyCodes ec"
proof (induction ec arbitrary: acc)
  case Nil
  show ?case by (simp add: keyCodes_def List.map_filter_simps)
next
  case (Cons kv ec)
  show ?case
    by (cases "sscanInt (fst kv)")
      (auto simp: Cons.IH keyCodes_def List.map_filter_simps)
qed

lemma set_collectCodes: "set (collectCodes ec) = keyCodes ec"
  by (simp add: collectCodes_def collectCodes_fold_set)

lemma overlapFlags_fold:
  "foldl (\<lambda>(allInExpected, hasOverlap) c.
            if c \<in> set expected then (allInExpected, True) else (False, hasOverlap))
     (a, h) codes
   = (a \<and> set codes \<subseteq> set expected, h \<or> set codes \<inter> set expected \<noteq> {})"
  by (induction codes arbitrary: a h) auto

lemma overlapFlags_sets:
  "overlapFlags expected codes
   = (set codes \<subseteq> set expected, set codes \<inter> set expected \<noteq> {})"
  by (simp add: overlapFlags_def overlapFlags_fold)

text \<open>
  Claim C2, as the code has it. With \<open>E\<close> the expected-code set of the probe and \<open>C\<close> the
  set of integers scanned from the keys of the exit-code map, whatever the counts stored
  under them, \<^verbatim>\<open>ExpectedState\<close> is \<^verbatim>\<open>unexpected\<close> when \<open>C\<close> is empty, \<^verbatim>\<open>expected\<close> when \<open>C\<close> is a
  non-empty subset of \<open>E\<close>, \<^verbatim>\<open>mixed\<close> when \<open>C\<close> meets \<open>E\<close> without being a subset, and
  \<^verbatim>\<open>unexpected\<close> otherwise.
\<close>

theorem ExpectedState_by_key_codes:
  "ExpectedState probe exitCodes = stateOfSets (expectedSet probe) (keyCodes exitCodes)"
proof (cases "map_of probeExpectedExitCodes probe")
  case None
  then show ?thesis
    by (simp add: ExpectedState_def expectedSet_def stateOfSets_def)
next
  case (Some e)
  have C: "set (collectCodes exitCodes) = keyCodes exitCodes"
    by (rule set_collectCodes)
  show ?thesis
  proof (cases "e = []")
    case True
    with Some show ?thesis
      by (simp add: ExpectedState_def expectedSet_def stateOfSets_def)
  next
    case False
    show ?thesis
    proof (cases "collectCodes exitCodes = []")
      case True
      with C have "keyCodes exitCodes = {}" by simp
      with Some False True show ?thesis
        by (simp add: ExpectedState_def expectedSet_def stateOfSets_def)
    next
      case nonempty: False
      with C have "keyCodes exitCodes \<noteq> {}" by auto
      with Some False nonempty show ?thesis
        by (simp add: ExpectedState_def expectedSet_def stateOfSets_def overlapFlags_sets C)
    qed
  qed
qed

theorem ExpectedState_by_key_codes_witness:
  "ExpectedState ''config.fdesetup_status'' [(''1'', JFloat 1), (''255'', JFloat 1)] = ''mixed''
   \<and> stateOfSets (expectedSet ''config.fdesetup_status'')
        (keyCodes [(''1'', JFloat 1), (''255'', JFloat 1)]) = ''mixed''"
  using ExpectedState_by_key_codes [of "''config.fdesetup_status''"
      "[(''1'', JFloat 1), (''255'', JFloat 1)]"]
  by (simp add: stateOfSets_def expectedSet_def keyCodes_def probeExpectedExitCodes_def
      List.map_filter_simps scan_eval)

text \<open>
  The rule does not hold of the codes with a non-zero count: a key whose count is 0 still
  enters the comparison. The probe below expects code 1; code 2 is listed with count 0 and
  turns the state to \<^verbatim>\<open>mixed\<close>, where the codes that occurred, \<open>{1}\<close>, are all expected.
\<close>

theorem ExpectedState_nonzero_codes_counterexample:
  "ExpectedState ''config.defaults_firewall_globalstate'' [(''1'', JFloat 5), (''2'', JFloat 0)]
     = ''mixed''
   \<and> stateOfSets (expectedSet ''config.defaults_firewall_globalstate'')
        (nonzeroCodes [(''1'', JFloat 5), (''2'', JFloat 0)]) = ''expected''"
  by (simp add: ExpectedState_def collectCodes_def overlapFlags_def stateOfSets_def
      expectedSet_def nonzeroCodes_def probeExpectedExitCodes_def List.map_filter_simps
      scan_eval num_eval)

section \<open>Sequencing of the report\<close>

lemma foldl_Print:
  "foldl (\<lambda>w d. Print (f d) w) out ds = out @ concat (map f ds)"
  by (induction ds arbitrary: out) (simp_all add: Print_def)

lemma foldl_Println:
  "foldl (\<lambda>w e. Println (f e) w) out es = out @ concat (map (\<lambda>e. f e @ [CHR 0x0A]) es)"
  by (induction es arbitrary: out) (simp_all add: Println_def)

lemma emitStorageDelta_append:
  "emitStorageDelta b c out = (found (emitStorageDelta b c), out @ printed (emitStorageDelta b c))"
  by (simp add: emitStorageDelta_def found_def printed_def foldl_Print Println_def Let_def
      split: option.splits)

lemma emitCountDelta_append:
  "emitCountDelta b c out = (found (emitCountDelta b c), out @ printed (emitCountDelta b c))"
  by (simp add: emitCountDelta_def found_def printed_def foldl_Print Println_def Let_def
      split: option.splits)

lemma emitSecurityConfigDelta_append:
  "emitSecurityConfigDelta b c out
   = (found (emitSecurityConfigDelta b c), out @ printed (emitSecurityConfigDelta b c))"
  by (simp add: emitSecurityConfigDelta_def found_def printed_def foldl_Print Println_def Let_def
      split: option.splits)

lemma emitHomebrewDelta_append:
  "emitHomebrewDelta b c out
   = (found (emitHomebrewDelta b c), out @ printed (emitHomebrewDelta b c))"
  by (simp add: emitHomebrewDelta_def found_def printed_def foldl_Print Println_def Let_def
      split: option.splits)

lemma emitNewWarnings_append:
  "emitNewWarnings codes out
   = (found (emitNewWarnings codes), out @ printed (emitNewWarnings codes))"
  by (simp add: emitNewWarnings_def found_def printed_def foldl_Print Println_def)

text \<open>The text under the topic headers, for the topics in the order given.\<close>

lemma foldl_topics:
  "foldl (\<lambda>w topic. foldl (\<lambda>w' e. Println (line e) w')
                      (Print ([CHR 0x0A] @ ''### '' @ topic @ [CHR 0x0A]) w) (items topic))
     out topics
   = out @ concat (map (\<lambda>topic. [CHR 0x0A] @ ''### '' @ topic @ [CHR 0x0A]
                          @ concat (map (\<lambda>e. line e @ [CHR 0x0A]) (items topic))) topics)"
  by (induction topics arbitrary: out) (simp_all add: foldl_Println Print_def)

lemma emitProbeFailuresDelta_text:
  "emitProbeFailuresDelta sprint b c out =
     (let entries = buildProbeFailureEntries b c
      in if entries = []
         then (False, out @ ''## Probe failures delta'' @ [CHR 0x0A]
                       @ ''  No changes detected'' @ [CHR 0x0A] @ [CHR 0x0A])
         else (True, out @ ''## Probe failures delta'' @ [CHR 0x0A]
                      @ concat (map (\<lambda>topic. [CHR 0x0A] @ ''### '' @ topic @ [CHR 0x0A]
                                     @ concat (map (\<lambda>e. entryLine sprint e @ [CHR 0x0A])
                                                (atList (groupByTopic entries) topic)))
                                 (sortTopics (map fst (groupByTopic entries))))
                      @ [CHR 0x0A]))"
  unfolding emitProbeFailuresDelta_def Let_def foldl_topics
  by (simp add: Println_def)

lemma emitProbeFailuresDelta_append:
  "emitProbeFailuresDelta sprint b c out
   = (found (emitProbeFailuresDelta sprint b c), out @ printed (emitProbeFailuresDelta sprint b c))"
  by (simp add: emitProbeFailuresDelta_text found_def printed_def Let_def)

text \<open>The output of \<^verbatim>\<open>Run\<close> as the concatenation of what the six emitters print.\<close>

lemma Run_text:
  fixes baselineRows currentRows :: "Row list" and sprint :: "jv \<Rightarrow> string"
  defines "e1 \<equiv> emitStorageDelta (map_of (GroupByType baselineRows) ''summary'')
      (map_of (GroupByType currentRows) ''summary'')"
    and "e2 \<equiv> emitCountDelta (map_of (GroupByType baselineRows) ''counts'')
      (map_of (GroupByType currentRows) ''counts'')"
    and "e3 \<equiv> emitSecurityConfigDelta (map_of (GroupByType baselineRows) ''security_config'')
      (map_of (GroupByType currentRows) ''security_config'')"
    and "e4 \<equiv> emitHomebrewDelta (map_of (GroupByType baselineRows) ''homebrew_summary'')
      (map_of (GroupByType currentRows) ''homebrew_summary'')"
    and "e5 \<equiv> emitNewWarnings
      (filter (\<lambda>c. c \<notin> set (CollectWarningCodes baselineRows)) (CollectWarningCodes currentRows))"
    and "e6 \<equiv> emitProbeFailuresDelta sprint
      (map_of (GroupByType baselineRows) ''probe_failures_summary'')
      (map_of (GroupByType currentRows) ''probe_failures_summary'')"
  shows "Run sprint baselineRows currentRows out0
      = (found e1 \<or> found e2 \<or> found e3 \<or> found e4 \<or> found e5 \<or> found e6,
         out0 @ printed e1 @ printed e2 @ printed e3 @ printed e4 @ printed e5 @ printed e6
           @ (if found e1 \<or> found e2 \<or> found e3 \<or> found e4 \<or> found e5 \<or> found e6 then ''''
              else ''No changes detected between baseline and current.'' @ [CHR 0x0A]))"
proof -
  have s1: "e1 w = (found e1, w @ printed e1)" for w
    unfolding e1_def by (rule emitStorageDelta_append)
  have s2: "e2 w = (found e2, w @ printed e2)" for w
    unfolding e2_def by (rule emitCountDelta_append)
  have s3: "e3 w = (found e3, w @ printed e3)" for w
    unfolding e3_def by (rule emitSecurityConfigDelta_append)
  have s4: "e4 w = (found e4, w @ printed e4)" for w
    unfolding e4_def by (rule emitHomebrewDelta_append)
  have s5: "e5 w = (found e5, w @ printed e5)" for w
    unfolding e5_def by (rule emitNewWarnings_append)
  have s6: "e6 w = (found e6, w @ printed e6)" for w
    unfolding e6_def by (rule emitProbeFailuresDelta_append)
  have run: "Run sprint baselineRows currentRows out0 =
      (let (d1, out1) = e1 out0; (d2, out2) = e2 out1; (d3, out3) = e3 out2;
           (d4, out4) = e4 out3; (d5, out5) = e5 out4; (d6, out6) = e6 out5;
           hasDeltas = (d6 \<or> d5 \<or> d4 \<or> d3 \<or> d2 \<or> d1)
       in if \<not> hasDeltas
          then (hasDeltas, Println ''No changes detected between baseline and current.'' out6)
          else (hasDeltas, out6))"
    by (simp add: Run_def Let_def e1_def e2_def e3_def e4_def e5_def e6_def split: prod.splits)
  show ?thesis
    unfolding run by (auto simp: s1 s2 s3 s4 s5 s6 Println_def)
qed

text \<open>
  Claim C8. \<^verbatim>\<open>Run\<close> writes, after what was written before, the text of the storage,
  count, security-config, homebrew, new-warnings and probe-failures emitters in this order;
  it returns the disjunction of their flags, and the line
  \<^verbatim>\<open>No changes detected between baseline and current.\<close> follows exactly when the disjunction
  is false. With no probe-failure entry the probe-failures emitter writes its header and
  the line \<^verbatim>\<open>No changes detected\<close> and returns false.
\<close>

theorem Run_sequence:
  "(let bt = GroupByType baselineRows;
        ct = GroupByType currentRows;
        e1 = emitStorageDelta (map_of bt ''summary'') (map_of ct ''summary'');
        e2 = emitCountDelta (map_of bt ''counts'') (map_of ct ''counts'');
        e3 = emitSecurityConfigDelta (map_of bt ''security_config'') (map_of ct ''security_config'');
        e4 = emitHomebrewDelta (map_of bt ''homebrew_summary'') (map_of ct ''homebrew_summary'');
        e5 = emitNewWarnings
               (filter (\<lambda>c. c \<notin> set (CollectWarningCodes baselineRows))
                  (CollectWarningCodes currentRows));
        e6 = emitProbeFailuresDelta sprint (map_of bt ''probe_failures_summary'')
               (map_of ct ''probe_failures_summary'');
        any = (found e1 \<or> found e2 \<or> found e3 \<or> found e4 \<or> found e5 \<or> found e6)
    in Run sprint baselineRows currentRows out0
       = (any, out0 @ printed e1 @ printed e2 @ printed e3 @ printed e4 @ printed e5 @ printed e6
                @ (if any then ''''
                   else ''No changes detected between baseline and current.'' @ [CHR 0x0A])))
   \<and> (buildProbeFailureEntries basePF currPF = []
        \<longrightarrow> emitProbeFailuresDelta sprint basePF currPF out
            = (False, out @ ''## Probe failures delta'' @ [CHR 0x0A]
                        @ ''  No changes detected'' @ [CHR 0x0A] @ [CHR 0x0A]))"
  unfolding Let_def by (simp only: Run_text) (simp add: emitProbeFailuresDelta_text)

theorem Run_sequence_witness:
  "buildProbeFailureEntries (Some (pfSummary [noopItem])) (Some (pfSummary [noopItem])) = []
   \<and> Run sprintText [pfSummary [noopItem]] [pfSummary [noopItem]] ''''
       = (False, ''## Probe failures delta'' @ [CHR 0x0A] @ ''  No changes detected'' @ [CHR 0x0A]
                  @ [CHR 0x0A] @ ''No changes detected between baseline and current.''
                  @ [CHR 0x0A])"
  using Run_sequence [of "[pfSummary [noopItem]]" "[pfSummary [noopItem]]" sprintText "''''"
      "Some (pfSummary [noopItem])" "Some (pfSummary [noopItem])" "''''"]
  by code_simp

section \<open>Spans and timestamps\<close>

text \<open>
  Claim C4, as the code has it. A count of 1 gives \<^verbatim>\<open>single-shot\<close> whatever the duration;
  any other count, not only one above 1, with a duration that coerces to 0 gives
  \<^verbatim>\<open>tight burst\<close>; otherwise the span is the first and the last timestamp as \<^verbatim>\<open>fmtTs\<close>
  writes them, followed by the rate with two decimals exactly when the duration is at
  least 1000 ms and the rate is positive. \<^verbatim>\<open>fmtTsMs\<close> writes \<^verbatim>\<open>N/A\<close> for nil and for 0 and
  the UTC date and time of any other number of milliseconds.
\<close>

theorem SpanFormat_cases:
  "(count = 1 \<longrightarrow> SpanFormat count durMs rate firstTs lastTs fmtTs = ''single-shot'')
   \<and> (count \<noteq> 1 \<and> toFloat64 durMs = 0
        \<longrightarrow> SpanFormat count durMs rate firstTs lastTs fmtTs = ''tight burst'')
   \<and> (count \<noteq> 1 \<and> toFloat64 durMs \<noteq> 0
        \<longrightarrow> SpanFormat count durMs rate firstTs lastTs fmtTs
            = fmtTs firstTs @ '' '' @ arrow @ '' '' @ fmtTs lastTs
              @ (if toFloat64 durMs \<ge> 1000 \<and> toFloat64 rate > 0
                 then '' ('' @ fmtFixed 2 (toFloat64 rate) @ ''/s)'' else ''''))
   \<and> fmtTsMs sprint JNil = ''N/A''
   \<and> fmtTsMs sprint (JFloat 0) = ''N/A''
   \<and> fmtTsMs sprint (JInt 0) = ''N/A''
   \<and> fmtTsMs sprint (JInt64 0) = ''N/A''
   \<and> (x \<noteq> 0 \<longrightarrow> fmtTsMs sprint (JFloat x) = fmtUnixMilli (floatToInt x))"
  by (simp add: SpanFormat_def SpanLabel_def spanSingleShot_def spanTightBurst_def fmtMs_def Let_def)

theorem SpanFormat_cases_witness:
  "SpanFormat 1 (JFloat 2100) (JFloat 5) JNil JNil (fmtTsMs sprintText) = ''single-shot''
   \<and> SpanFormat 5 (JFloat 0) (JFloat 5) JNil JNil (fmtTsMs sprintText) = ''tight burst''
   \<and> SpanFormat 12 (JFloat 2100) (JFloat (571 / 100)) (JFloat 1708600301000)
        (JFloat 1708600303100) (fmtTsMs sprintText)
      = ''2024-02-22 11:11:41 '' @ arrow @ '' 2024-02-22 11:11:43 (5.71/s)''
   \<and> fmtTsMs sprintText (JFloat 0) = ''N/A''"
proof -
  have one: "SpanFormat 1 (JFloat 2100) (JFloat 5) JNil JNil (fmtTsMs sprintText) = ''single-shot''"
    using SpanFormat_cases [of 1 "JFloat 2100" "JFloat 5" JNil JNil "fmtTsMs sprintText" sprintText 1]
    by simp
  have burst: "SpanFormat 5 (JFloat 0) (JFloat 5) JNil JNil (fmtTsMs sprintText) = ''tight burst''"
    using SpanFormat_cases [of 5 "JFloat 0" "JFloat 5" JNil JNil "fmtTsMs sprintText" sprintText 1]
    by simp
  have "SpanFormat 12 (JFloat 2100) (JFloat (571 / 100)) (JFloat 1708600301000)
          (JFloat 1708600303100) (fmtTsMs sprintText)
        = fmtTsMs sprintText (JFloat 1708600301000) @ '' '' @ arrow @ '' ''
          @ fmtTsMs sprintText (JFloat 1708600303100) @ '' ('' @ fmtFixed 2 (571 / 100) @ ''/s)''"
    using SpanFormat_cases [of 12 "JFloat 2100" "JFloat (571 / 100)" "JFloat 1708600301000"
        "JFloat 1708600303100" "fmtTsMs sprintText" sprintText 1]
    by simp
  also have "\<dots> = ''2024-02-22 11:11:41 '' @ arrow @ '' 2024-02-22 11:11:43 (5.71/s)''"
    by code_simp
  finally have span: "SpanFormat 12 (JFloat 2100) (JFloat (571 / 100)) (JFloat 1708600301000)
          (JFloat 1708600303100) (fmtTsMs sprintText)
        = ''2024-02-22 11:11:41 '' @ arrow @ '' 2024-02-22 11:11:43 (5.71/s)''" .
  have na: "fmtTsMs sprintText (JFloat 0) = ''N/A''"
    using SpanFormat_cases [of 1 JNil JNil JNil JNil "fmtTsMs sprintText" sprintText 1] by blast
  from one burst span na show ?thesis by blast
qed

text \<open>
  A count of 0 with a duration of 0 is neither 1 nor above 1, so the specification's
  third case would write the two timestamps; the code writes \<^verbatim>\<open>tight burst\<close>.
\<close>

theorem SpanFormat_count_zero_counterexample:
  "SpanFormat 0 (JFloat 0) JNil JNil JNil (fmtTsMs sprintText) = ''tight burst''
   \<and> spanBySpec 0 (JFloat 0) JNil JNil JNil (fmtTsMs sprintText) = ''N/A '' @ arrow @ '' N/A''
   \<and> SpanFormat 0 (JFloat 0) JNil JNil JNil (fmtTsMs sprintText)
       \<noteq> spanBySpec 0 (JFloat 0) JNil JNil JNil (fmtTsMs sprintText)"
  by code_simp

section \<open>Storage delta\<close>

text \<open>
  The percentage is computed in float64: from 2000 to 2001 bytes the quotient \<open>1 / 2000\<close>
  and its product with 100 are rounded, the result lies above \<open>0.05\<close> and is written
  \<^verbatim>\<open>+0.1%\<close>.
\<close>

lemma storage_percent_rounds:
  "emitStorageDelta (Some [(''home_bytes'', JFloat 2000)]) (Some [(''home_bytes'', JFloat 2001)]) ''''
   = (True, ''## Storage delta'' @ [CHR 0x0A]
            @ ''  home: 2.0K '' @ arrow @ '' 2.0K (+1B, +0.1%)'' @ [CHR 0x0A] @ [CHR 0x0A])"
  by code_simp

text \<open>
  Claim C6 at a shrinking directory: the home directory goes from 2048 to 1024 bytes. The
  delta is -1024 bytes and the percentage carries its minus sign, but the humanized delta
  is written \<^verbatim>\<open>1.0K\<close> with no sign: the caller adds a plus sign to a delta that is not
  negative and nothing to a negative one, and \<^verbatim>\<open>fmtBytes\<close> writes the absolute value. The
  count emitter, built the same way, does write the minus sign of a negative delta.
\<close>

theorem storage_delta_negative_sign_lost:
  "emitStorageDelta (Some [(''type'', JStr ''summary''), (''home_bytes'', JFloat 2048)])
     (Some [(''type'', JStr ''summary''), (''home_bytes'', JFloat 1024)]) ''''
   = (True, ''## Storage delta'' @ [CHR 0x0A]
            @ ''  home: 2.0K '' @ arrow @ '' 1.0K (1.0K, -50.0%)'' @ [CHR 0x0A] @ [CHR 0x0A])
   \<and> emitCountDelta (Some [(''type'', JStr ''counts''), (''git_repos'', JFloat 5)])
       (Some [(''type'', JStr ''counts''), (''git_repos'', JFloat 3)]) ''''
   = (True, ''## Count changes'' @ [CHR 0x0A]
            @ ''  git_repos: 5 '' @ arrow @ '' 3 (-2)'' @ [CHR 0x0A] @ [CHR 0x0A])"
  by code_simp

section \<open>Order of the entries under a topic\<close>

lemma distinct_indexItems_fold:
  "distinct (map fst (foldl (\<lambda>probes it. case it of
                           JObj row \<Rightarrow> (case idx row ''probe'' of
                                          JStr p \<Rightarrow> AList.update p row probes
                                        | _ \<Rightarrow> probes)
                         | _ \<Rightarrow> probes) acc items))"
  if "distinct (map fst acc)"
  using that
proof (induction items arbitrary: acc)
  case Nil
  then show ?case by simp
next
  case (Cons it items)
  show ?case
    by (simp, rule Cons.IH) (auto simp: Cons.prems distinct_update split: jv.splits)
qed

lemma distinct_indexItems: "distinct (map fst (indexItems items))"
  unfolding indexItems_def by (rule distinct_indexItems_fold) simp

lemma atList_update:
  "atList (AList.update k v m) t = (if t = k then v else atList m t)"
  by (simp add: atList_def update_conv')

lemma groupByTopic_fold:
  "atList (foldl (\<lambda>byTopic e. let topic = ProbeTopic (pe_probe e)
                               in AList.update topic (atList byTopic topic @ [e]) byTopic)
             m entries) t
   = atList m t @ filter (\<lambda>e. ProbeTopic (pe_probe e) = t) entries"
  by (induction entries arbitrary: m) (simp_all add: Let_def atList_update)

text \<open>The entries under a topic are the entries of that topic, in the order of the list.\<close>

lemma groupByTopic_items:
  "atList (groupByTopic entries) t = filter (\<lambda>e. ProbeTopic (pe_probe e) = t) entries"
  unfolding groupByTopic_def groupByTopic_fold by (simp add: atList_def)

lemma probeSortKey_inj: "probeSortKey p s = probeSortKey q s \<Longrightarrow> p = q"
  by (simp add: probeSortKey_def Let_def)

lemma sortProbes_strict:
  assumes "distinct probes"
  shows "sorted_wrt (\<lambda>p q. probeSortKey p s < probeSortKey q s) (sortProbes probes s)"
proof -
  have "sorted (map (\<lambda>p. probeSortKey p s) (sortProbes probes s))"
    by (simp add: sortProbes_def)
  moreover have "distinct (map (\<lambda>p. probeSortKey p s) (sortProbes probes s))"
    using assms by (simp add: sortProbes_def distinct_map inj_on_def probeSortKey_inj)
  ultimately have "sorted_wrt (<) (map (\<lambda>p. probeSortKey p s) (sortProbes probes s))"
    by (simp add: strict_sorted_iff)
  then show ?thesis by (simp add: sorted_wrt_map)
qed

lemma statusFirstKey_same_status:
  assumes "pe_status a = pe_status b" "entryKey a < entryKey b"
  shows "statusFirstKey a < statusFirstKey b"
  using assms by (auto simp: statusFirstKey_def entryKey_def probeSortKey_def Let_def)

lemma entries_part_sorted:
  assumes "distinct probes"
  shows "sorted_wrt (\<lambda>a b. statusFirstKey a < statusFirstKey b)
           (map (\<lambda>p. \<lparr>pe_status = s, pe_probe = p, pe_baseIt = f p, pe_currIt = g p\<rparr>)
              (sortProbes probes s))"
proof -
  have "sorted_wrt (\<lambda>p q. probeSortKey p s < probeSortKey q s) (sortProbes probes s)"
    using assms by (rule sortProbes_strict)
  then have "sorted_wrt (\<lambda>p q. statusFirstKey \<lparr>pe_status = s, pe_probe = p, pe_baseIt = f p, pe_currIt = g p\<rparr>
                              < statusFirstKey \<lparr>pe_status = s, pe_probe = q, pe_baseIt = f q, pe_currIt = g q\<rparr>)
               (sortProbes probes s)"
    by (rule sorted_wrt_mono_rel [rotated]) (simp add: statusFirstKey_same_status entryKey_def)
  then show ?thesis by (simp add: sorted_wrt_map)
qed

lemma statusFirstKey_status:
  "fst (statusFirstKey \<lparr>pe_status = ''new'', pe_probe = p, pe_baseIt = b, pe_currIt = c\<rparr>) = 0"
  "fst (statusFirstKey \<lparr>pe_status = ''resolved'', pe_probe = p, pe_baseIt = b, pe_currIt = c\<rparr>) = 1"
  "fst (statusFirstKey \<lparr>pe_status = ''changed'', pe_probe = p, pe_baseIt = b, pe_currIt = c\<rparr>) = 2"
  by (simp_all add: statusFirstKey_def entryKey_def probeSortKey_def statusOrder_def Let_def)

lemma less_by_fst: "fst (a :: int \<times> int \<times> string) < fst b \<Longrightarrow> a < b"
  by (cases a, cases b) simp

lemma entries_sorted:
  "sorted_wrt (\<lambda>a b. statusFirstKey a < statusFirstKey b) (buildProbeFailureEntries basePF currPF)"
proof -
  have d: "distinct (filter P (map fst (indexItems items)))" for P items
    by (simp add: distinct_indexItems)
  show ?thesis
    unfolding buildProbeFailureEntries_def Let_def sorted_wrt_append
    by (intro conjI entries_part_sorted d ballI less_by_fst)
      (auto simp: statusFirstKey_status)
qed

text \<open>
  Claim C3, as the code has it. The probe-failures section is its header followed, for
  each topic in the sorted order of topics, by the topic header and one line for each
  entry of the topic; under every topic the entries are in strictly ascending order of
  the key (status rank, severity rank, probe identifier): the new entries first, then the
  resolved, then the changed ones, each group ordered by severity and then by probe
  identifier.
\<close>

theorem topic_entries_status_first:
  "sorted_wrt (\<lambda>a b. statusFirstKey a < statusFirstKey b)
     (atList (groupByTopic (buildProbeFailureEntries basePF currPF)) topic)
   \<and> (buildProbeFailureEntries basePF currPF \<noteq> []
        \<longrightarrow> snd (emitProbeFailuresDelta sprint basePF currPF out)
            = out @ ''## Probe failures delta'' @ [CHR 0x0A]
              @ concat (map (\<lambda>t. [CHR 0x0A] @ ''### '' @ t @ [CHR 0x0A]
                              @ concat (map (\<lambda>e. entryLine sprint e @ [CHR 0x0A])
                                         (atList (groupByTopic (buildProbeFailureEntries basePF currPF)) t)))
                          (sortTopics (map fst (groupByTopic (buildProbeFailureEntries basePF currPF)))))
              @ [CHR 0x0A])"
proof (intro conjI impI)
  show "sorted_wrt (\<lambda>a b. statusFirstKey a < statusFirstKey b)
     (atList (groupByTopic (buildProbeFailureEntries basePF currPF)) topic)"
    by (simp add: groupByTopic_items sorted_wrt_filter entries_sorted)
next
  assume "buildProbeFailureEntries basePF currPF \<noteq> []"
  then show "snd (emitProbeFailuresDelta sprint basePF currPF out)
            = out @ ''## Probe failures delta'' @ [CHR 0x0A]
              @ concat (map (\<lambda>t. [CHR 0x0A] @ ''### '' @ t @ [CHR 0x0A]
                              @ concat (map (\<lambda>e. entryLine sprint e @ [CHR 0x0A])
                                         (atList (groupByTopic (buildProbeFailureEntries basePF currPF)) t)))
                          (sortTopics (map fst (groupByTopic (buildProbeFailureEntries basePF currPF)))))
              @ [CHR 0x0A]"
    by (simp add: emitProbeFailuresDelta_text Let_def)
qed


theorem topic_entries_status_first_witness:
  "buildProbeFailureEntries (Some orderBase) (Some orderCurr) \<noteq> []
   \<and> sorted_wrt (\<lambda>a b. statusFirstKey a < statusFirstKey b)
        (atList (groupByTopic (buildProbeFailureEntries (Some orderBase) (Some orderCurr))) ''Network'')
   \<and> map statusFirstKey
        (atList (groupByTopic (buildProbeFailureEntries (Some orderBase) (Some orderCurr))) ''Network'')
      = [(0, 1, ''network.ifconfig_b''), (1, 0, ''network.defaults_a'')]
   \<and> snd (emitProbeFailuresDelta sprintText (Some orderBase) (Some orderCurr) '''')
      = ''## Probe failures delta'' @ [CHR 0x0A] @ [CHR 0x0A] @ ''### Network'' @ [CHR 0x0A]
        @ ''  + network.ifconfig_b failed 1'' @ times @ '' (single-shot), exit_codes: {1:1}''
        @ [CHR 0x0A]
        @ ''  - network.defaults_a resolved (was 1'' @ times @ '', exit_codes: {1:1})''
        @ [CHR 0x0A] @ [CHR 0x0A]"
proof -
  have ne: "buildProbeFailureEntries (Some orderBase) (Some orderCurr) \<noteq> []"
    by code_simp
  have keys: "map statusFirstKey
        (atList (groupByTopic (buildProbeFailureEntries (Some orderBase) (Some orderCurr))) ''Network'')
      = [(0, 1, ''network.ifconfig_b''), (1, 0, ''network.defaults_a'')]"
    by code_simp
  note inst = topic_entries_status_first [of "Some orderBase" "Some orderCurr" "''Network''"
      sprintText "''''"]
  from inst have srt: "sorted_wrt (\<lambda>a b. statusFirstKey a < statusFirstKey b)
        (atList (groupByTopic (buildProbeFailureEntries (Some orderBase) (Some orderCurr))) ''Network'')"
    by blast
  from inst ne have "snd (emitProbeFailuresDelta sprintText (Some orderBase) (Some orderCurr) '''')
      = '''' @ ''## Probe failures delta'' @ [CHR 0x0A]
        @ concat (map (\<lambda>t. [CHR 0x0A] @ ''### '' @ t @ [CHR 0x0A]
                        @ concat (map (\<lambda>e. entryLine sprintText e @ [CHR 0x0A])
                                   (atList (groupByTopic (buildProbeFailureEntries (Some orderBase) (Some orderCurr))) t)))
                    (sortTopics (map fst (groupByTopic (buildProbeFailureEntries (Some orderBase) (Some orderCurr))))))
        @ [CHR 0x0A]"
    by blast
  also have "\<dots> = ''## Probe failures delta'' @ [CHR 0x0A] @ [CHR 0x0A] @ ''### Network'' @ [CHR 0x0A]
        @ ''  + network.ifconfig_b failed 1'' @ times @ '' (single-shot), exit_codes: {1:1}''
        @ [CHR 0x0A]
        @ ''  - network.defaults_a resolved (was 1'' @ times @ '', exit_codes: {1:1})''
        @ [CHR 0x0A] @ [CHR 0x0A]"
    by code_simp
  finally show ?thesis using ne keys srt by blast
qed

text \<open>
  In the order of the specification's key, (severity rank, status rank, probe), the
  resolved high-severity probe would come before the new medium-severity probe. The code
  lists the new one first: the keys of the entries under Network are not ascending.
\<close>

theorem topic_entries_severity_first_counterexample:
  "map entryKey
     (atList (groupByTopic (buildProbeFailureEntries (Some orderBase) (Some orderCurr))) ''Network'')
   = [(1, 0, ''network.ifconfig_b''), (0, 1, ''network.defaults_a'')]
   \<and> \<not> sorted (map entryKey
          (atList (groupByTopic (buildProbeFailureEntries (Some orderBase) (Some orderCurr))) ''Network''))"
  by code_simp

section \<open>Malformed records\<close>

lemma indexItems_skip:
  assumes "\<And>row p. it = JObj row \<Longrightarrow> idx row ''probe'' \<noteq> JStr p"
  shows "indexItems (xs @ it # ys) = indexItems (xs @ ys)"
proof -
  have "(case it of
            JObj row \<Rightarrow> (case idx row ''probe'' of
                           JStr p \<Rightarrow> AList.update p row probes
                         | _ \<Rightarrow> probes)
          | _ \<Rightarrow> probes) = probes" for probes
    using assms by (cases it) (auto split: jv.splits)
  then show ?thesis
    by (simp add: indexItems_def)
qed

lemma GroupByType_skip:
  assumes "\<And>t. idx row ''type'' = JStr t \<Longrightarrow> t = ''''"
  shows "GroupByType (rs @ row # rs') = GroupByType (rs @ rs')"
proof -
  have "(case idx row ''type'' of
           JStr t \<Rightarrow> if t \<noteq> '''' then AList.update t row byType else byType
         | _ \<Rightarrow> byType) = byType" for byType
    using assms by (cases "idx row ''type''") auto
  then show ?thesis
    by (simp add: GroupByType_def)
qed

section \<open>No panic\<close>

text \<open>
  The operations do panic where Go does: a write into a nil map, also as the first step of
  a loop, and an index at the length of a slice.
\<close>

lemma operations_panic:
  "mapStore k v None = Inl NilMapWrite"
  "setStore k None = Inl NilMapWrite"
  "sliceAt xs (length xs) = Inl IndexOutOfRange"
  "forEach (\<lambda>m kv. mapStore (fst kv) (snd kv) m) None (kv # kvs) = Inl NilMapWrite"
  "lessAt key xs 0 (length xs) = Inl IndexOutOfRange"
  by (simp_all add: mapStore_def setStore_def sliceAt_def andThen_def lessAt_def)

lemma andThen_Inr [simp]: "andThen (Inr x) f = f x"
  by (simp add: andThen_def)

lemma forEach_Inr:
  assumes "\<And>s x. body s x = Inr (g s x)"
  shows "forEach body s xs = Inr (foldl g s xs)"
  by (induction xs arbitrary: s) (simp_all add: assms)

lemma forEach_Some:
  assumes "\<And>s x. body (Some s) x = Inr (Some (g s x))"
  shows "forEach body (Some s) xs = Inr (Some (foldl g s xs))"
  by (induction xs arbitrary: s) (simp_all add: assms)

lemma forEach_filter:
  assumes "\<And>acc x. body acc x = Inr (if P x then acc @ [x] else acc)"
  shows "forEach body acc xs = Inr (acc @ filter P xs)"
  by (induction xs arbitrary: acc) (simp_all add: assms)

lemma sortSlice_chk_sorts: "sortSlice_chk key xs = Inr (sort_key key xs)"
  by (simp add: sortSlice_chk_def list_all_iff lessAt_def sliceAt_def)

lemma mapEntries_getMapN: "mapEntries (getMapN row key) = getMap row key"
  by (simp add: mapEntries_def getMapN_def getMap_def split: jv.splits)

lemma GroupByType_chk_runs: "GroupByType_chk rows = Inr (Some (GroupByType rows))"
  unfolding GroupByType_chk_def GroupByType_def makeMap_def
  by (rule forEach_Some) (simp add: mapStore_def split: jv.splits)

lemma CollectWarningCodes_chk_runs:
  "CollectWarningCodes_chk rows = Inr (Some (CollectWarningCodes rows))"
  unfolding CollectWarningCodes_chk_def CollectWarningCodes_def makeSet_def
  by (rule forEach_Some) (auto simp: setStore_def split: jv.splits)

lemma collectCodes_chk_runs: "collectCodes_chk ec = Inr (Some (collectCodes ec))"
  unfolding collectCodes_chk_def collectCodes_def makeSet_def
  by (rule forEach_Some) (simp add: setStore_def split: option.splits)

lemma ExpectedState_chk_runs: "ExpectedState_chk probe ec = Inr (ExpectedState probe ec)"
  by (simp add: ExpectedState_chk_def ExpectedState_def collectCodes_chk_runs setMembers_def
      Let_def split: prod.splits)

lemma ExpectedSuffix_chk_runs: "ExpectedSuffix_chk probe ec = Inr (ExpectedSuffix probe ec)"
  by (simp add: ExpectedSuffix_chk_def ExpectedSuffix_def ExpectedState_chk_runs Let_def)

lemma keySet_runs:
  "forEach (\<lambda>s kv. setStore (fst kv) s) (Some s0) ec
   = Inr (Some (foldl (\<lambda>s kv. List.insert (fst kv) s) s0 ec))"
  by (rule forEach_Some) (simp add: setStore_def)

lemma exitCodesDelta_chk_runs:
  "exitCodesDelta_chk baseEC currEC = Inr (Some (exitCodesDelta baseEC currEC))"
proof -
  have store: "forEach (\<lambda>delta c. mapStore c (wrap64 (toInt (idx currEC c) - toInt (idx baseEC c))) delta)
        (Some []) cs
      = Inr (Some (foldl (\<lambda>delta c. AList.update c (wrap64 (toInt (idx currEC c) - toInt (idx baseEC c))) delta)
          [] cs))" for cs
    by (rule forEach_Some) (simp add: mapStore_def)
  show ?thesis
    by (simp add: exitCodesDelta_chk_def exitCodesDelta_def makeSet_def makeMap_def keySet_runs
        setMembers_def store Let_def)
qed

lemma normExitCodes_chk_runs:
  "\<exists>m. normExitCodes_chk ec = Inr m \<and> mapEntries m = normExitCodes (mapEntries ec)"
proof (cases ec)
  case None
  then show ?thesis
    by (simp add: normExitCodes_chk_def mapEntries_def normExitCodes_def)
next
  case (Some kvs)
  have "forEach (\<lambda>out kv. case sscanInt (fst kv) of
                            Some kk \<Rightarrow> mapStore kk (toInt (snd kv)) out
                          | None \<Rightarrow> Inr out) (Some []) kvs
      = Inr (Some (normExitCodes kvs))"
    unfolding normExitCodes_def
    by (rule forEach_Some) (simp add: mapStore_def split: option.splits)
  with Some show ?thesis
    by (simp add: normExitCodes_chk_def makeMap_def mapEntries_def)
qed

lemma probeFailureIsChanged_chk_runs:
  "probeFailureIsChanged_chk probe baseIt currIt = Inr (probeFailureIsChanged probe baseIt currIt)"
proof -
  obtain a where a: "normExitCodes_chk (getMapN baseIt ''exit_codes'') = Inr a"
      "mapEntries a = normExitCodes (getMap baseIt ''exit_codes'')"
    using normExitCodes_chk_runs [of "getMapN baseIt ''exit_codes''"]
    by (auto simp: mapEntries_getMapN)
  obtain b where b: "normExitCodes_chk (getMapN currIt ''exit_codes'') = Inr b"
      "mapEntries b = normExitCodes (getMap currIt ''exit_codes'')"
    using normExitCodes_chk_runs [of "getMapN currIt ''exit_codes''"]
    by (auto simp: mapEntries_getMapN)
  show ?thesis
    by (simp add: probeFailureIsChanged_chk_def probeFailureIsChanged_def a b mapEntries_getMapN
        ExpectedState_chk_runs Let_def)
qed

lemma indexItems_chk_runs: "indexItems_chk items = Inr (Some (indexItems items))"
  unfolding indexItems_chk_def indexItems_def makeMap_def
  by (rule forEach_Some) (simp add: mapStore_def split: jv.splits)

lemma sortProbes_chk_runs: "sortProbes_chk probes status = Inr (sortProbes probes status)"
  by (simp add: sortProbes_chk_def sortProbes_def sortSlice_chk_sorts)

lemma changedProbes_runs:
  "forEach (\<lambda>changedProbes p.
              if map_of currProbes p \<noteq> None
              then andThen (probeFailureIsChanged_chk p (map_of baseProbes p) (map_of currProbes p))
                     (\<lambda>c. Inr (if c then changedProbes @ [p] else changedProbes))
              else Inr changedProbes)
     [] ps
   = Inr (filter (\<lambda>p. map_of currProbes p \<noteq> None
                      \<and> probeFailureIsChanged p (map_of baseProbes p) (map_of currProbes p)) ps)"
proof -
  have "forEach (\<lambda>changedProbes p.
              if map_of currProbes p \<noteq> None
              then andThen (probeFailureIsChanged_chk p (map_of baseProbes p) (map_of currProbes p))
                     (\<lambda>c. Inr (if c then changedProbes @ [p] else changedProbes))
              else Inr changedProbes)
     [] ps
   = Inr ([] @ filter (\<lambda>p. map_of currProbes p \<noteq> None
                      \<and> probeFailureIsChanged p (map_of baseProbes p) (map_of currProbes p)) ps)"
    by (rule forEach_filter) (simp add: probeFailureIsChanged_chk_runs)
  then show ?thesis by simp
qed

lemma buildProbeFailureEntries_chk_runs:
  "buildProbeFailureEntries_chk basePF currPF = Inr (buildProbeFailureEntries basePF currPF)"
  unfolding buildProbeFailureEntries_chk_def buildProbeFailureEntries_def
  by (simp only: indexItems_chk_runs andThen_Inr mapEntries_def option.case Let_def
      changedProbes_runs sortProbes_chk_runs)

lemma formatProbeEntryNew_chk_runs:
  "formatProbeEntryNew_chk sprint probe currIt = Inr (formatProbeEntryNew sprint probe currIt)"
  by (simp only: formatProbeEntryNew_chk_def formatProbeEntryNew_def ExpectedSuffix_chk_runs
      andThen_Inr Let_def)

lemma formatProbeEntryResolved_chk_runs:
  "formatProbeEntryResolved_chk probe baseIt = Inr (formatProbeEntryResolved probe baseIt)"
  by (simp only: formatProbeEntryResolved_chk_def formatProbeEntryResolved_def
      ExpectedSuffix_chk_runs andThen_Inr Let_def)

lemma formatProbeEntryChanged_chk_runs:
  "formatProbeEntryChanged_chk probe baseIt currIt
   = Inr (formatProbeEntryChanged probe baseIt currIt)"
  by (simp only: formatProbeEntryChanged_chk_def formatProbeEntryChanged_def
      ExpectedSuffix_chk_runs exitCodesDelta_chk_runs andThen_Inr mapEntries_def option.case
      Let_def if_distrib [of Inr, symmetric])

lemma entryLine_chk_runs: "entryLine_chk sprint e = Inr (entryLine sprint e)"
  by (simp add: entryLine_chk_def entryLine_def formatProbeEntryNew_chk_runs
      formatProbeEntryResolved_chk_runs formatProbeEntryChanged_chk_runs)

lemma groupByTopic_chk_runs: "groupByTopic_chk entries = Inr (Some (groupByTopic entries))"
  unfolding groupByTopic_chk_def groupByTopic_def makeMap_def
  by (rule forEach_Some) (simp add: mapStore_def mapEntries_def Let_def)

lemma sortTopics_chk_runs: "sortTopics_chk topics = Inr (sortTopics topics)"
  by (simp add: sortTopics_chk_def sortTopics_def sortSlice_chk_sorts)

lemma topicLines_runs:
  "forEach (\<lambda>w topic.
              forEach (\<lambda>w' e. andThen (entryLine_chk sprint e) (\<lambda>line. Inr (Println line w')))
                (Print (heading topic) w) (items topic))
     out1 topics
   = Inr (foldl (\<lambda>w topic. foldl (\<lambda>w' e. Println (entryLine sprint e) w') (Print (heading topic) w)
                               (items topic))
            out1 topics)"
proof (rule forEach_Inr)
  fix w topic
  show "forEach (\<lambda>w' e. andThen (entryLine_chk sprint e) (\<lambda>line. Inr (Println line w')))
          (Print (heading topic) w) (items topic)
        = Inr (foldl (\<lambda>w' e. Println (entryLine sprint e) w') (Print (heading topic) w) (items topic))"
    by (rule forEach_Inr) (simp add: entryLine_chk_runs)
qed

lemma emitProbeFailuresDelta_chk_runs:
  "emitProbeFailuresDelta_chk sprint basePF currPF out
   = Inr (emitProbeFailuresDelta sprint basePF currPF out)"
  unfolding emitProbeFailuresDelta_chk_def emitProbeFailuresDelta_def
  by (simp only: buildProbeFailureEntries_chk_runs groupByTopic_chk_runs sortTopics_chk_runs
      topicLines_runs [where heading = "\<lambda>topic. [CHR 0x0A] @ ''### '' @ topic @ [CHR 0x0A]"]
      andThen_Inr mapEntries_def option.case Let_def if_distrib [of Inr, symmetric])

lemma Run_chk_runs:
  "Run_chk sprint baselineRows currentRows out = Inr (Run sprint baselineRows currentRows out)"
  unfolding Run_chk_def Run_def
  by (simp only: GroupByType_chk_runs CollectWarningCodes_chk_runs emitProbeFailuresDelta_chk_runs
      andThen_Inr mapEntries_def setMembers_def option.case Let_def)
    (simp split: prod.splits)

section \<open>Malformed records in the report\<close>

lemma CollectWarningCodes_skip:
  assumes "\<And>t. idx row ''type'' = JStr t \<Longrightarrow> t = ''''"
  shows "CollectWarningCodes (rs @ row # rs') = CollectWarningCodes (rs @ rs')"
proof -
  have "(case idx row ''type'' of JStr t \<Rightarrow> t | _ \<Rightarrow> '''') \<noteq> ''warning''"
    using assms by (cases "idx row ''type''") auto
  then show ?thesis
    by (simp add: CollectWarningCodes_def)
qed

lemma Run_skip_row:
  assumes "\<And>t. idx row ''type'' = JStr t \<Longrightarrow> t = ''''"
  shows "Run sprint (rs @ row # rs') cur out = Run sprint (rs @ rs') cur out"
    and "Run sprint base (rs @ row # rs') out = Run sprint base (rs @ rs') out"
  unfolding Run_def
  by (simp_all only: GroupByType_skip [OF assms] CollectWarningCodes_skip [OF assms])

lemma getSlice_list: "idxN pf key = JArr s \<Longrightarrow> getSlice pf key = s"
  by (simp add: getSlice_def)

lemma getSlice_not_list: "\<forall>s. idxN pf key \<noteq> JArr s \<Longrightarrow> getSlice pf key = []"
  by (cases "idxN pf key") (simp_all add: getSlice_def)

lemma entries_skip_item:
  assumes "\<And>r p. it = JObj r \<Longrightarrow> idx r ''probe'' \<noteq> JStr p"
    and "idxN pf ''items'' = JArr (xs @ it # ys)" "idxN pf' ''items'' = JArr (xs @ ys)"
  shows "buildProbeFailureEntries pf other = buildProbeFailureEntries pf' other"
    and "buildProbeFailureEntries other pf = buildProbeFailureEntries other pf'"
  unfolding buildProbeFailureEntries_def
  by (simp_all only: getSlice_list [OF assms(2)] getSlice_list [OF assms(3)] Let_def
      indexItems_skip [OF assms(1)])

lemma entries_not_list:
  assumes "\<forall>s. idxN pf ''items'' \<noteq> JArr s"
  shows "buildProbeFailureEntries pf other = buildProbeFailureEntries None other"
    and "buildProbeFailureEntries other pf = buildProbeFailureEntries other None"
proof -
  have "getSlice pf ''items'' = getSlice None ''items''"
    using getSlice_not_list [OF assms] by (simp add: getSlice_def idxN_def)
  then show "buildProbeFailureEntries pf other = buildProbeFailureEntries None other"
    and "buildProbeFailureEntries other pf = buildProbeFailureEntries other None"
    unfolding buildProbeFailureEntries_def by (simp_all only:)
qed

lemma not_number_zero:
  assumes "\<not> isNumber v"
  shows "toInt v = 0" "toFloat64 v = 0"
  using assms by (cases v; simp add: isNumber_def)+

lemma getMap_not_map: "\<forall>m. idx item key \<noteq> JObj m \<Longrightarrow> getMap (Some item) key = []"
  by (cases "idx item key") (simp_all add: getMap_def idxN_def)

lemma ExpectedSuffix_no_codes: "ExpectedSuffix p [] = ''''"
  by (simp add: ExpectedSuffix_def ExpectedState_def collectCodes_def Let_def)

lemma showInt_zero: "showInt 0 = ''0''"
  by (simp add: showInt_def showNat.simps digitChar_def)

lemma resolved_line_defaults:
  assumes "\<not> isNumber (idx item ''count'')" "\<forall>m. idx item ''exit_codes'' \<noteq> JObj m"
  shows "formatProbeEntryResolved p (Some item)
         = ''  - '' @ p @ '' resolved (was 0'' @ times @ '', exit_codes: {})''"
  by (simp add: formatProbeEntryResolved_def idxN_def not_number_zero [OF assms(1)]
      getMap_not_map [OF assms(2)] ExpectedSuffix_no_codes showInt_zero formatExitCodes_def)

lemma new_line_defaults:
  assumes "\<not> isNumber (idx item ''count'')" "\<forall>m. idx item ''exit_codes'' \<noteq> JObj m"
    and "\<not> isNumber (idx item ''duration_ms'')"
  shows "formatProbeEntryNew sprint p (Some item)
         = ''  + '' @ p @ '' failed 0'' @ times @ '' (tight burst), exit_codes: {}''"
  by (simp add: formatProbeEntryNew_def idxN_def not_number_zero [OF assms(1)]
      not_number_zero [OF assms(3)] getMap_not_map [OF assms(2)] ExpectedSuffix_no_codes
      showInt_zero formatExitCodes_def SpanFormat_def SpanLabel_def spanSingleShot_def
      spanTightBurst_def)

lemma idx_update: "idx (AList.update k v row) k' = (if k' = k then v else idx row k')"
  by (simp add: idx_def update_conv')

lemma count_field_default:
  assumes "\<not> isNumber (idx cnt f)"
  shows "emitCountDelta (Some cnt) oth out = emitCountDelta (Some (AList.update f (JFloat 0) cnt)) oth out"
    and "emitCountDelta oth (Some cnt) out = emitCountDelta oth (Some (AList.update f (JFloat 0) cnt)) out"
proof -
  have same: "toInt (idx (AList.update f (JFloat 0) cnt) g) = toInt (idx cnt g)" for g
    using not_number_zero(1) [OF assms] by (simp add: idx_update num_eval inInt64_def)
  show "emitCountDelta (Some cnt) oth out = emitCountDelta (Some (AList.update f (JFloat 0) cnt)) oth out"
    by (cases oth) (simp_all add: emitCountDelta_def intDeltas_def same)
  show "emitCountDelta oth (Some cnt) out = emitCountDelta oth (Some (AList.update f (JFloat 0) cnt)) out"
    by (cases oth) (simp_all add: emitCountDelta_def intDeltas_def same)
qed

text \<open>
  Claim C10. With the panics of Go written out (a write into a nil map, an index outside a
  slice), \<^verbatim>\<open>Run\<close> ends without one on any two lists of rows, with the flag and the output
  of \<open>Run\<close>, and the output extends what was written before. What is malformed degrades:
  a value that is no number coerces to 0, and a count field that is missing or no number
  is diffed as the number 0 is; a row whose \<^verbatim>\<open>type\<close> is missing, not a string or empty
  is left out of the type index, and the report is the report of the rows without it; an
  item that is not a map, or has no string under \<^verbatim>\<open>probe\<close>, is skipped: the entries are
  those of the items without it; an \<^verbatim>\<open>items\<close> that is not a list gives the entries of a
  missing summary; and a probe whose count is no number and whose \<^verbatim>\<open>exit_codes\<close> is not a
  map is reported with the count 0 and no exit codes.
\<close>

theorem malformed_records_degrade:
  "Run_chk sprint baselineRows currentRows out = Inr (Run sprint baselineRows currentRows out)
   \<and> (\<exists>d text. Run sprint baselineRows currentRows out = (d, out @ text))
   \<and> (\<not> isNumber v \<longrightarrow> toInt v = 0 \<and> toFloat64 v = 0)
   \<and> (\<not> isNumber (idx cnt f)
        \<longrightarrow> emitCountDelta (Some cnt) oth out
              = emitCountDelta (Some (AList.update f (JFloat 0) cnt)) oth out
            \<and> emitCountDelta oth (Some cnt) out
              = emitCountDelta oth (Some (AList.update f (JFloat 0) cnt)) out)
   \<and> ((\<forall>t. idx rw ''type'' = JStr t \<longrightarrow> t = '''')
        \<longrightarrow> GroupByType (rs @ rw # rs') = GroupByType (rs @ rs')
            \<and> Run sprint (rs @ rw # rs') currentRows out = Run sprint (rs @ rs') currentRows out
            \<and> Run sprint baselineRows (rs @ rw # rs') out = Run sprint baselineRows (rs @ rs') out)
   \<and> ((\<forall>r q. it = JObj r \<longrightarrow> idx r ''probe'' \<noteq> JStr q)
        \<and> idxN pf ''items'' = JArr (xs @ it # ys) \<and> idxN pf' ''items'' = JArr (xs @ ys)
        \<longrightarrow> buildProbeFailureEntries pf other = buildProbeFailureEntries pf' other
            \<and> buildProbeFailureEntries other pf = buildProbeFailureEntries other pf')
   \<and> ((\<forall>s. idxN pfn ''items'' \<noteq> JArr s)
        \<longrightarrow> buildProbeFailureEntries pfn other = buildProbeFailureEntries None other
            \<and> buildProbeFailureEntries other pfn = buildProbeFailureEntries other None)
   \<and> (\<not> isNumber (idx item ''count'') \<and> (\<forall>m. idx item ''exit_codes'' \<noteq> JObj m)
        \<longrightarrow> formatProbeEntryResolved p (Some item)
              = ''  - '' @ p @ '' resolved (was 0'' @ times @ '', exit_codes: {})''
            \<and> (\<not> isNumber (idx item ''duration_ms'')
                 \<longrightarrow> formatProbeEntryNew sprint p (Some item)
                       = ''  + '' @ p @ '' failed 0'' @ times @ '' (tight burst), exit_codes: {}''))"
proof (intro conjI impI)
  show "Run_chk sprint baselineRows currentRows out = Inr (Run sprint baselineRows currentRows out)"
    by (rule Run_chk_runs)
  show "\<exists>d text. Run sprint baselineRows currentRows out = (d, out @ text)"
    by (simp only: Run_text) blast
  show "toInt v = 0" "toFloat64 v = 0" if "\<not> isNumber v"
    using that by (rule not_number_zero)+
  show "emitCountDelta (Some cnt) oth out
        = emitCountDelta (Some (AList.update f (JFloat 0) cnt)) oth out"
    "emitCountDelta oth (Some cnt) out
        = emitCountDelta oth (Some (AList.update f (JFloat 0) cnt)) out"
    if "\<not> isNumber (idx cnt f)"
    using that by (rule count_field_default)+
  show "GroupByType (rs @ rw # rs') = GroupByType (rs @ rs')"
    "Run sprint (rs @ rw # rs') currentRows out = Run sprint (rs @ rs') currentRows out"
    "Run sprint baselineRows (rs @ rw # rs') out = Run sprint baselineRows (rs @ rs') out"
    if "\<forall>t. idx rw ''type'' = JStr t \<longrightarrow> t = ''''"
  proof -
    from that have bad: "\<And>t. idx rw ''type'' = JStr t \<Longrightarrow> t = ''''" by blast
    show "GroupByType (rs @ rw # rs') = GroupByType (rs @ rs')"
      by (rule GroupByType_skip [OF bad])
    show "Run sprint (rs @ rw # rs') currentRows out = Run sprint (rs @ rs') currentRows out"
      by (rule Run_skip_row(1) [OF bad])
    show "Run sprint baselineRows (rs @ rw # rs') out = Run sprint baselineRows (rs @ rs') out"
      by (rule Run_skip_row(2) [OF bad])
  qed
  show "buildProbeFailureEntries pf other = buildProbeFailureEntries pf' other"
    "buildProbeFailureEntries other pf = buildProbeFailureEntries other pf'"
    if "(\<forall>r q. it = JObj r \<longrightarrow> idx r ''probe'' \<noteq> JStr q)
        \<and> idxN pf ''items'' = JArr (xs @ it # ys) \<and> idxN pf' ''items'' = JArr (xs @ ys)"
  proof -
    from that have bad: "\<And>r q. it = JObj r \<Longrightarrow> idx r ''probe'' \<noteq> JStr q"
      and l: "idxN pf ''items'' = JArr (xs @ it # ys)" and l': "idxN pf' ''items'' = JArr (xs @ ys)"
      by blast+
    show "buildProbeFailureEntries pf other = buildProbeFailureEntries pf' other"
      by (rule entries_skip_item(1) [OF bad l l'])
    show "buildProbeFailureEntries other pf = buildProbeFailureEntries other pf'"
      by (rule entries_skip_item(2) [OF bad l l'])
  qed
  show "buildProbeFailureEntries pfn other = buildProbeFailureEntries None other"
    "buildProbeFailureEntries other pfn = buildProbeFailureEntries other None"
    if "\<forall>s. idxN pfn ''items'' \<noteq> JArr s"
    using that by (rule entries_not_list)+
  show "formatProbeEntryResolved p (Some item)
        = ''  - '' @ p @ '' resolved (was 0'' @ times @ '', exit_codes: {})''"
    if "\<not> isNumber (idx item ''count'') \<and> (\<forall>m. idx item ''exit_codes'' \<noteq> JObj m)"
    using that by (intro resolved_line_defaults) blast+
  show "formatProbeEntryNew sprint p (Some item)
        = ''  + '' @ p @ '' failed 0'' @ times @ '' (tight burst), exit_codes: {}''"
    if "\<not> isNumber (idx item ''count'') \<and> (\<forall>m. idx item ''exit_codes'' \<noteq> JObj m)"
      and "\<not> isNumber (idx item ''duration_ms'')"
    using that by (intro new_line_defaults) blast+
qed

theorem malformed_records_degrade_witness:
  "Run_chk sprintText malformedBase malformedCurr ''''
   = Inr (True, ''## Probe failures delta'' @ [CHR 0x0A] @ [CHR 0x0A] @ ''### Storage'' @ [CHR 0x0A]
               @ ''  + storage.df failed 0'' @ times @ '' (tight burst), exit_codes: {}''
               @ [CHR 0x0A] @ [CHR 0x0A])
   \<and> toInt (JStr ''many'') = 0
   \<and> emitCountDelta (Some [(''git_repos'', JStr ''five'')]) (Some [(''git_repos'', JFloat 3)]) ''''
     = emitCountDelta (Some (AList.update ''git_repos'' (JFloat 0) [(''git_repos'', JStr ''five'')]))
         (Some [(''git_repos'', JFloat 3)]) ''''
   \<and> emitCountDelta (Some [(''git_repos'', JStr ''five'')]) (Some [(''git_repos'', JFloat 3)]) ''''
     = (True, ''## Count changes'' @ [CHR 0x0A] @ ''  git_repos: 0 '' @ arrow @ '' 3 (+3)''
              @ [CHR 0x0A] @ [CHR 0x0A])
   \<and> GroupByType ([] @ numberTypeRow # [emptyTypeRow]) = GroupByType ([] @ [emptyTypeRow])
   \<and> Run sprintText ([] @ numberTypeRow # [emptyTypeRow]) malformedCurr ''''
     = Run sprintText ([] @ [emptyTypeRow]) malformedCurr ''''
   \<and> buildProbeFailureEntries None (Some (pfSummary ([] @ JObj [(''probe'', JFloat 7)] # [JObj looseRow])))
     = buildProbeFailureEntries None (Some (pfSummary ([] @ [JObj looseRow])))
   \<and> buildProbeFailureEntries (Some itemsNumberRow) None = buildProbeFailureEntries None None
   \<and> formatProbeEntryResolved ''storage.df'' (Some looseRow)
     = ''  - storage.df resolved (was 0'' @ times @ '', exit_codes: {})''
   \<and> formatProbeEntryNew sprintText ''storage.df'' (Some looseRow)
     = ''  + storage.df failed 0'' @ times @ '' (tight burst), exit_codes: {}''"
proof -
  note inst = malformed_records_degrade [where sprint = sprintText and baselineRows = malformedBase
      and currentRows = malformedCurr and out = "''''" and v = "JStr ''many''"
      and cnt = "[(''git_repos'', JStr ''five'')]" and f = "''git_repos''"
      and oth = "Some [(''git_repos'', JFloat 3)]"
      and rw = numberTypeRow and rs = "[]" and rs' = "[emptyTypeRow]"
      and it = "JObj [(''probe'', JFloat 7)]" and xs = "[]" and ys = "[JObj looseRow]"
      and pf = "Some (pfSummary ([] @ JObj [(''probe'', JFloat 7)] # [JObj looseRow]))"
      and pf' = "Some (pfSummary ([] @ [JObj looseRow]))" and other = None
      and pfn = "Some itemsNumberRow" and item = looseRow and p = "''storage.df''"]
  have h1: "\<not> isNumber (JStr ''many'')"
    by (simp add: isNumber_def)
  have h2: "\<not> isNumber (idx [(''git_repos'', JStr ''five'')] ''git_repos'')"
    by (simp add: isNumber_def idx_def)
  have h3: "\<forall>t. idx numberTypeRow ''type'' = JStr t \<longrightarrow> t = ''''"
    by (simp add: numberTypeRow_def idx_def)
  have h4: "(\<forall>r q. JObj [(''probe'', JFloat 7)] = JObj r \<longrightarrow> idx r ''probe'' \<noteq> JStr q)
      \<and> idxN (Some (pfSummary ([] @ JObj [(''probe'', JFloat 7)] # [JObj looseRow]))) ''items''
          = JArr ([] @ JObj [(''probe'', JFloat 7)] # [JObj looseRow])
      \<and> idxN (Some (pfSummary ([] @ [JObj looseRow]))) ''items'' = JArr ([] @ [JObj looseRow])"
    by (simp add: idxN_def idx_def pfSummary_def)
  have h5: "\<forall>s. idxN (Some itemsNumberRow) ''items'' \<noteq> JArr s"
    by (simp add: idxN_def idx_def itemsNumberRow_def)
  have h6: "\<not> isNumber (idx looseRow ''count'') \<and> (\<forall>m. idx looseRow ''exit_codes'' \<noteq> JObj m)"
    by (simp add: isNumber_def idx_def looseRow_def)
  have h7: "\<not> isNumber (idx looseRow ''duration_ms'')"
    by (simp add: isNumber_def idx_def looseRow_def)
  have run: "Run sprintText malformedBase malformedCurr ''''
      = (True, ''## Probe failures delta'' @ [CHR 0x0A] @ [CHR 0x0A] @ ''### Storage'' @ [CHR 0x0A]
               @ ''  + storage.df failed 0'' @ times @ '' (tight burst), exit_codes: {}''
               @ [CHR 0x0A] @ [CHR 0x0A])"
    by code_simp
  have cnt: "emitCountDelta (Some (AList.update ''git_repos'' (JFloat 0) [(''git_repos'', JStr ''five'')]))
         (Some [(''git_repos'', JFloat 3)]) ''''
      = (True, ''## Count changes'' @ [CHR 0x0A] @ ''  git_repos: 0 '' @ arrow @ '' 3 (+3)''
              @ [CHR 0x0A] @ [CHR 0x0A])"
    by code_simp
  have c1: "Run_chk sprintText malformedBase malformedCurr ''''
      = Inr (True, ''## Probe failures delta'' @ [CHR 0x0A] @ [CHR 0x0A] @ ''### Storage'' @ [CHR 0x0A]
               @ ''  + storage.df failed 0'' @ times @ '' (tight burst), exit_codes: {}''
               @ [CHR 0x0A] @ [CHR 0x0A])"
    using inst [THEN conjunct1] by (simp only: run)
  note r2 = inst [THEN conjunct2, THEN conjunct2]
  have c2: "toInt (JStr ''many'') = 0"
    using r2 [THEN conjunct1, THEN mp, OF h1] by (rule conjunct1)
  note r3 = r2 [THEN conjunct2]
  note c3 = r3 [THEN conjunct1, THEN mp, OF h2, THEN conjunct1]
  have c3': "emitCountDelta (Some [(''git_repos'', JStr ''five'')]) (Some [(''git_repos'', JFloat 3)]) ''''
      = (True, ''## Count changes'' @ [CHR 0x0A] @ ''  git_repos: 0 '' @ arrow @ '' 3 (+3)''
              @ [CHR 0x0A] @ [CHR 0x0A])"
    using c3 by (simp only: cnt)
  note r4 = r3 [THEN conjunct2]
  note c4 = r4 [THEN conjunct1, THEN mp, OF h3]
  note r5 = r4 [THEN conjunct2]
  note c5 = r5 [THEN conjunct1, THEN mp, OF h4]
  note r6 = r5 [THEN conjunct2]
  note c6 = r6 [THEN conjunct1, THEN mp, OF h5]
  note r7 = r6 [THEN conjunct2]
  note c7 = r7 [THEN mp, OF h6]
  have c8: "formatProbeEntryResolved ''storage.df'' (Some looseRow)
      = ''  - storage.df resolved (was 0'' @ times @ '', exit_codes: {})''"
    using c7 [THEN conjunct1] by simp
  have c9: "formatProbeEntryNew sprintText ''storage.df'' (Some looseRow)
      = ''  + storage.df failed 0'' @ times @ '' (tight burst), exit_codes: {}''"
    using c7 [THEN conjunct2, THEN mp, OF h7] by simp
  show ?thesis
    by (intro conjI) (rule c1 c2 c3 c3' c4 [THEN conjunct1] c4 [THEN conjunct2, THEN conjunct1]
        c5 [THEN conjunct2] c6 [THEN conjunct1] c8 c9)+
qed

section \<open>Changed probes\<close>












section \<open>Order of visit of a map\<close>

lemma HasPrefix_hd: "HasPrefix s p \<Longrightarrow> p \<noteq> [] \<Longrightarrow> s \<noteq> [] \<and> hd s = hd p"
  by (cases s; cases p) (auto simp: HasPrefix_def)

lemma probeTopic_heads:
  "\<forall>kv \<in> set probeTopic. \<forall>kv' \<in> set probeTopic.
     fst kv \<noteq> [] \<and> (hd (fst kv) = hd (fst kv') \<longrightarrow> kv = kv')"
  by (simp add: probeTopic_def)

lemma prefixScan_unique:
  assumes "(k, v) \<in> set t" "HasPrefix probe k"
    and "\<forall>kv \<in> set t. HasPrefix probe (fst kv) \<longrightarrow> kv = (k, v)"
  shows "prefixScan t probe d = v"
  using assms by (induction t) auto

text \<open>
  \<^verbatim>\<open>ProbeTopic\<close> ranges over a map, but no two prefixes of the table match the same probe
  (they differ in their first character), so every order of visit gives the same topic.
\<close>

lemma ProbeTopic_any_order:
  assumes "set table = set probeTopic"
  shows "prefixScan table probe ''Other'' = ProbeTopic probe"
proof (cases "\<exists>kv \<in> set probeTopic. HasPrefix probe (fst kv)")
  case True
  then obtain kv where kv: "kv \<in> set probeTopic" "HasPrefix probe (fst kv)" ..
  have uniq: "\<forall>kv' \<in> set probeTopic. HasPrefix probe (fst kv') \<longrightarrow> kv' = (fst kv, snd kv)"
  proof (intro ballI impI)
    fix kv' assume m: "kv' \<in> set probeTopic" and p: "HasPrefix probe (fst kv')"
    have a: "fst kv \<noteq> [] \<and> (hd (fst kv) = hd (fst kv') \<longrightarrow> kv = kv')"
      using kv(1) m by (rule probeTopic_heads [rule_format])
    have b: "fst kv' \<noteq> [] \<and> (hd (fst kv') = hd (fst kv') \<longrightarrow> kv' = kv')"
      using m m by (rule probeTopic_heads [rule_format])
    from a have ne: "fst kv \<noteq> []" ..
    from b have ne': "fst kv' \<noteq> []" ..
    have "hd probe = hd (fst kv)" using HasPrefix_hd [OF kv(2) ne] ..
    moreover have "hd probe = hd (fst kv')" using HasPrefix_hd [OF p ne'] ..
    ultimately have "hd (fst kv) = hd (fst kv')" by simp
    with a have "kv = kv'" by simp
    then show "kv' = (fst kv, snd kv)" by simp
  qed
  have in1: "(fst kv, snd kv) \<in> set probeTopic" using kv(1) by simp
  have "prefixScan probeTopic probe ''Other'' = snd kv"
    using in1 kv(2) uniq by (rule prefixScan_unique)
  moreover have "prefixScan table probe ''Other'' = snd kv"
    using in1 kv(2) uniq unfolding assms [symmetric] by (rule prefixScan_unique)
  ultimately show ?thesis by (simp add: ProbeTopic_def)
next
  case False
  then have no: "\<forall>p \<in> set probeTopic. \<not> HasPrefix probe (fst p)" by simp
  from no have "prefixScan probeTopic probe ''Other'' = ''Other''"
    by (rule prefixScan_none)
  moreover from no have "prefixScan table probe ''Other'' = ''Other''"
    unfolding assms [symmetric] by (rule prefixScan_none)
  ultimately show ?thesis by (simp add: ProbeTopic_def)
qed

text \<open>
  Claim C9 at a map with two keys for one code. The exit-code map
  \<^verbatim>\<open>{"1": 5, "01": 3}\<close> is one Go value; \<open>twoKeys\<close> and \<open>rev twoKeys\<close> are the two orders in
  which a \<^verbatim>\<open>range\<close> loop can visit it. Both keys scan as code 1, so \<^verbatim>\<open>normExitCodes\<close> keeps
  the count of the key visited last. With baseline and current run both holding this
  map, a run that visits it the same way twice reports no change, and a run that visits
  it one way for the baseline and the other way for the current run reports a changed
  probe: the output of \<^verbatim>\<open>Run\<close> and its result depend on the order of visit.
\<close>

theorem Run_depends_on_visit_order:
  "map_of (rev twoKeys) = map_of twoKeys
   \<and> distinct (map fst twoKeys)
   \<and> Run sprintText [dupFirstOrder] [dupFirstOrder] ''''
       = (False, ''## Probe failures delta'' @ [CHR 0x0A] @ ''  No changes detected'' @ [CHR 0x0A]
                  @ [CHR 0x0A] @ ''No changes detected between baseline and current.''
                  @ [CHR 0x0A])
   \<and> Run sprintText [dupFirstOrder] [dupOtherOrder] ''''
       = (True, ''## Probe failures delta'' @ [CHR 0x0A] @ [CHR 0x0A] @ ''### Storage''
                 @ [CHR 0x0A] @ ''  ~ storage.df 8'' @ times @ arrow @ ''8'' @ times
                 @ [CHR 0x0A] @ [CHR 0x0A])"
proof -
  have "map_of (rev twoKeys) = map_of twoKeys"
    by (rule ext) (simp add: twoKeys_def)
  moreover have "distinct (map fst twoKeys)"
    by (simp add: twoKeys_def)
  moreover have "Run sprintText [dupFirstOrder] [dupFirstOrder] ''''
       = (False, ''## Probe failures delta'' @ [CHR 0x0A] @ ''  No changes detected'' @ [CHR 0x0A]
                  @ [CHR 0x0A] @ ''No changes detected between baseline and current.''
                  @ [CHR 0x0A])"
    by code_simp
  moreover have "Run sprintText [dupFirstOrder] [dupOtherOrder] ''''
       = (True, ''## Probe failures delta'' @ [CHR 0x0A] @ [CHR 0x0A] @ ''### Storage''
                 @ [CHR 0x0A] @ ''  ~ storage.df 8'' @ times @ arrow @ ''8'' @ times
                 @ [CHR 0x0A] @ [CHR 0x0A])"
    by code_simp
  ultimately show ?thesis by blast
qed

section \<open>Reading a stream\<close>

lemma splitLines_plain:
  "CHR 0x0A \<notin> set s \<Longrightarrow> splitLines cur s = (if cur @ s = [] then [] else [cur @ s])"
  by (induction s arbitrary: cur) auto

lemma readLoop_ok:
  assumes "\<forall>l \<in> set ls. lineOk m u l"
  shows "readLoop m u n acc ls = Inr (acc @ recordsOf u ls)"
  using assms
proof (induction ls arbitrary: n acc)
  case Nil
  show ?case by (simp add: recordsOf_def)
next
  case (Cons l ls)
  from Cons.prems have ok: "lineOk m u l" and rest: "\<forall>l \<in> set ls. lineOk m u l" by simp_all
  show ?case
  proof (cases "lineText l = []")
    case True
    with ok Cons.IH [OF rest] show ?thesis
      by (simp add: lineOk_def lineText_def recordsOf_def)
  next
    case False
    with ok obtain obj where "u (lineText l) = Inr obj"
      by (cases "u (lineText l)") (auto simp: lineOk_def)
    with ok False Cons.IH [OF rest] show ?thesis
      by (simp add: lineOk_def lineText_def recordsOf_def)
  qed
qed

lemma readLoop_step:
  assumes "lineOk m u l"
  shows "\<exists>acc'. readLoop m u n acc (l # ls) = readLoop m u (n + 1) acc' ls"
proof (cases "lineText l = []")
  case True
  with assms show ?thesis by (auto simp: lineOk_def lineText_def)
next
  case False
  with assms obtain obj where "u (lineText l) = Inr obj"
    by (cases "u (lineText l)") (auto simp: lineOk_def)
  with assms False show ?thesis by (auto simp: lineOk_def lineText_def)
qed

lemma readLoop_bad:
  assumes "i < length ls" "\<forall>j<i. lineOk m u (ls ! j)" "length (ls ! i) < m"
    and "lineText (ls ! i) \<noteq> []" "u (lineText (ls ! i)) = Inl msg"
  shows "readLoop m u n acc ls = Inl (InvalidJSON (n + i) (firstLine msg))"
  using assms
proof (induction ls arbitrary: i n acc)
  case Nil
  then show ?case by simp
next
  case (Cons l ls)
  show ?case
  proof (cases i)
    case 0
    with Cons.prems show ?thesis by (simp add: lineText_def)
  next
    case (Suc k)
    from Cons.prems(2) Suc have "lineOk m u l" by auto
    then obtain acc' where step: "readLoop m u n acc (l # ls) = readLoop m u (n + 1) acc' ls"
      using readLoop_step by blast
    have "readLoop m u (n + 1) acc' ls = Inl (InvalidJSON (n + 1 + k) (firstLine msg))"
    proof (rule Cons.IH)
      show "k < length ls" using Cons.prems(1) Suc by simp
      show "\<forall>j<k. lineOk m u (ls ! j)"
      proof (intro allI impI)
        fix j assume "j < k"
        then have "Suc j < i" using Suc by simp
        with Cons.prems(2) have "lineOk m u ((l # ls) ! Suc j)" by blast
        then show "lineOk m u (ls ! j)" by simp
      qed
      show "length (ls ! k) < m" using Cons.prems(3) Suc by simp
      show "lineText (ls ! k) \<noteq> []" using Cons.prems(4) Suc by simp
      show "u (lineText (ls ! k)) = Inl msg" using Cons.prems(5) Suc by simp
    qed
    with step Suc show ?thesis by simp
  qed
qed

lemma readLoop_long:
  assumes "i < length ls" "\<forall>j<i. lineOk m u (ls ! j)" "m \<le> length (ls ! i)"
  shows "readLoop m u n acc ls = Inl ReadError"
  using assms
proof (induction ls arbitrary: i n acc)
  case Nil
  then show ?case by simp
next
  case (Cons l ls)
  show ?case
  proof (cases i)
    case 0
    with Cons.prems show ?thesis by simp
  next
    case (Suc k)
    from Cons.prems(2) Suc have "lineOk m u l" by auto
    then obtain acc' where step: "readLoop m u n acc (l # ls) = readLoop m u (n + 1) acc' ls"
      using readLoop_step by blast
    have "readLoop m u (n + 1) acc' ls = Inl ReadError"
    proof (rule Cons.IH)
      show "k < length ls" using Cons.prems(1) Suc by simp
      show "\<forall>j<k. lineOk m u (ls ! j)"
      proof (intro allI impI)
        fix j assume "j < k"
        then have "Suc j < i" using Suc by simp
        with Cons.prems(2) have "lineOk m u ((l # ls) ! Suc j)" by blast
        then show "lineOk m u (ls ! j)" by simp
      qed
      show "m \<le> length (ls ! k)" using Cons.prems(3) Suc by simp
    qed
    with step show ?thesis by simp
  qed
qed

text \<open>Records are returned only when every line let the loop go on, and then all of them.\<close>

lemma readLoop_Inr:
  assumes "readLoop m u n acc ls = Inr rows"
  shows "(\<forall>l \<in> set ls. lineOk m u l) \<and> rows = acc @ recordsOf u ls"
  using assms
proof (induction ls arbitrary: n acc)
  case Nil
  then show ?case by (simp add: recordsOf_def)
next
  case (Cons l ls)
  show ?case
  proof (cases "lineOk m u l")
    case True
    show ?thesis
    proof (cases "lineText l = []")
      case blank: True
      with True Cons.prems have "readLoop m u (n + 1) acc ls = Inr rows"
        by (simp add: lineOk_def lineText_def)
      from Cons.IH [OF this] True blank show ?thesis
        by (simp add: recordsOf_def)
    next
      case False
      with True obtain obj where obj: "u (lineText l) = Inr obj"
        by (cases "u (lineText l)") (auto simp: lineOk_def)
      with True False Cons.prems have "readLoop m u (n + 1) (acc @ [obj]) ls = Inr rows"
        by (simp add: lineOk_def lineText_def)
      from Cons.IH [OF this] True False obj show ?thesis
        by (simp add: recordsOf_def)
    qed
  next
    case False
    then have "readLoop m u n acc (l # ls) = Inl ReadError
        \<or> (\<exists>msg. readLoop m u n acc (l # ls) = Inl (InvalidJSON n (firstLine msg)))"
      by (cases "u (lineText l)") (auto simp: lineOk_def lineText_def)
    with Cons.prems show ?thesis by auto
  qed
qed

text \<open>
  Claim C7. A file that cannot be opened is an error. Otherwise, with the physical lines
  of the content numbered from 1: when every line fits the buffer and is blank after
  trimming or decodes, \<^verbatim>\<open>ReadNDJSON\<close> returns the records of the lines that are not blank,
  in file order; when the first line that does not do so fits the buffer but fails to
  decode, it returns the error that cites the number of that line among all physical
  lines, blank ones included; when that line is of the buffer's size or longer, it
  returns the read error. Records are returned in the first case only, so never a part of
  them.
\<close>

theorem ReadNDJSON_all_or_error:
  "ReadNDJSON unmarshal None = Inl OpenError
   \<and> (let lines = splitLines [] content
      in ((\<forall>l \<in> set lines. lineOk maxLineSize unmarshal l)
            \<longrightarrow> ReadNDJSON unmarshal (Some content) = Inr (recordsOf unmarshal lines))
         \<and> (\<forall>i msg. i < length lines \<and> (\<forall>j<i. lineOk maxLineSize unmarshal (lines ! j))
                \<and> length (lines ! i) < maxLineSize \<and> lineText (lines ! i) \<noteq> []
                \<and> unmarshal (lineText (lines ! i)) = Inl msg
              \<longrightarrow> ReadNDJSON unmarshal (Some content) = Inl (InvalidJSON (i + 1) (firstLine msg)))
         \<and> (\<forall>i. i < length lines \<and> (\<forall>j<i. lineOk maxLineSize unmarshal (lines ! j))
                \<and> maxLineSize \<le> length (lines ! i)
              \<longrightarrow> ReadNDJSON unmarshal (Some content) = Inl ReadError)
         \<and> (\<forall>rows. ReadNDJSON unmarshal (Some content) = Inr rows
              \<longrightarrow> (\<forall>l \<in> set lines. lineOk maxLineSize unmarshal l)
                  \<and> rows = recordsOf unmarshal lines))"
proof -
  define lines where "lines = splitLines [] content"
  have rd: "ReadNDJSON unmarshal (Some content) = readLoop maxLineSize unmarshal 1 [] lines"
    by (simp add: ReadNDJSON_def lines_def)
  have a: "ReadNDJSON unmarshal None = Inl OpenError"
    by (simp add: ReadNDJSON_def)
  have b: "(\<forall>l \<in> set lines. lineOk maxLineSize unmarshal l)
      \<longrightarrow> ReadNDJSON unmarshal (Some content) = Inr (recordsOf unmarshal lines)"
    unfolding rd using readLoop_ok [of lines maxLineSize unmarshal 1 "[]"] by simp
  have c: "\<forall>i msg. i < length lines \<and> (\<forall>j<i. lineOk maxLineSize unmarshal (lines ! j))
        \<and> length (lines ! i) < maxLineSize \<and> lineText (lines ! i) \<noteq> []
        \<and> unmarshal (lineText (lines ! i)) = Inl msg
      \<longrightarrow> ReadNDJSON unmarshal (Some content) = Inl (InvalidJSON (i + 1) (firstLine msg))"
    unfolding rd by (intro allI impI, elim conjE, simp only: add.commute [of _ 1], rule readLoop_bad)
  have d: "\<forall>i. i < length lines \<and> (\<forall>j<i. lineOk maxLineSize unmarshal (lines ! j))
        \<and> maxLineSize \<le> length (lines ! i)
      \<longrightarrow> ReadNDJSON unmarshal (Some content) = Inl ReadError"
    unfolding rd by (intro allI impI, elim conjE, rule readLoop_long)
  have e: "\<forall>rows. ReadNDJSON unmarshal (Some content) = Inr rows
      \<longrightarrow> (\<forall>l \<in> set lines. lineOk maxLineSize unmarshal l) \<and> rows = recordsOf unmarshal lines"
    unfolding rd using readLoop_Inr [of maxLineSize unmarshal 1 "[]" lines] by simp
  from a b c d e show ?thesis
    unfolding Let_def lines_def by blast
qed

lemma maxLineSize_pos: "0 < maxLineSize"
  by (simp add: maxLineSize_def)

lemma lineOk_short:
  assumes "lineOk 100 u l"
  shows "lineOk maxLineSize u l"
  using assms by (auto simp: lineOk_def maxLineSize_def)

theorem ReadNDJSON_all_or_error_witness:
  "ReadNDJSON bracesOnly (Some goodStream) = Inr [''{a}'', ''{b}'']
   \<and> ReadNDJSON bracesOnly (Some badStream) = Inl (InvalidJSON 5 ''invalid character'')
   \<and> ReadNDJSON bracesOnly (Some (replicate maxLineSize (CHR ''a''))) = Inl ReadError"
proof (intro conjI)
  note complete = ReadNDJSON_all_or_error [of bracesOnly goodStream, unfolded Let_def,
      THEN conjunct2, THEN conjunct1, rule_format]
  have "list_all (lineOk 100 bracesOnly) (splitLines [] goodStream)"
    by code_simp
  then have "\<And>l. l \<in> set (splitLines [] goodStream) \<Longrightarrow> lineOk maxLineSize bracesOnly l"
    by (simp add: list_all_iff lineOk_short)
  then have "ReadNDJSON bracesOnly (Some goodStream)
      = Inr (recordsOf bracesOnly (splitLines [] goodStream))"
    by (rule complete)
  also have "recordsOf bracesOnly (splitLines [] goodStream) = [''{a}'', ''{b}'']"
    by code_simp
  finally show "ReadNDJSON bracesOnly (Some goodStream) = Inr [''{a}'', ''{b}'']" .
next
  note cited = ReadNDJSON_all_or_error [of bracesOnly badStream, unfolded Let_def,
      THEN conjunct2, THEN conjunct2, THEN conjunct1, rule_format,
      of 4 "''invalid character'' @ [CHR 0x0A] @ ''second line of the message''"]
  have len: "4 < length (splitLines [] badStream)"
    by code_simp
  have "list_all (lineOk 100 bracesOnly) (take 4 (splitLines [] badStream))"
    by code_simp
  then have "list_all (lineOk maxLineSize bracesOnly) (take 4 (splitLines [] badStream))"
    by (simp add: list_all_iff lineOk_short)
  then have before: "\<forall>j<4. lineOk maxLineSize bracesOnly (splitLines [] badStream ! j)"
    using len by (intro list_all_take_nth) simp_all
  have "length (splitLines [] badStream ! 4) < 100"
    by code_simp
  then have fits: "length (splitLines [] badStream ! 4) < maxLineSize"
    by (simp add: maxLineSize_def)
  have nonblank: "lineText (splitLines [] badStream ! 4) \<noteq> []"
    by code_simp
  have fails: "bracesOnly (lineText (splitLines [] badStream ! 4))
      = Inl (''invalid character'' @ [CHR 0x0A] @ ''second line of the message'')"
    by code_simp
  have "ReadNDJSON bracesOnly (Some badStream)
      = Inl (InvalidJSON (4 + 1)
               (firstLine (''invalid character'' @ [CHR 0x0A] @ ''second line of the message'')))"
    by (rule cited) (intro conjI len before fits nonblank fails)
  also have "firstLine (''invalid character'' @ [CHR 0x0A] @ ''second line of the message'')
      = ''invalid character''"
    by code_simp
  finally show "ReadNDJSON bracesOnly (Some badStream) = Inl (InvalidJSON 5 ''invalid character'')"
    by simp
next
  note long = ReadNDJSON_all_or_error [of bracesOnly "replicate maxLineSize (CHR ''a'')",
      unfolded Let_def, THEN conjunct2, THEN conjunct2, THEN conjunct2, THEN conjunct1,
      rule_format, of 0]
  have one: "splitLines [] (replicate maxLineSize (CHR ''a'')) = [replicate maxLineSize (CHR ''a'')]"
    using maxLineSize_pos by (simp add: splitLines_plain)
  show "ReadNDJSON bracesOnly (Some (replicate maxLineSize (CHR ''a''))) = Inl ReadError"
    by (rule long) (simp add: one)
qed


end
